theory Spec2Isabelle
  imports Complex_Main "HOL-Library.AList"
begin

section \<open>Python strings\<close>

text \<open>
  A Python \<open>str\<close> is modelled as a \<open>string\<close>. The model covers ASCII text: the case
  mappings and character classes below are those of Python restricted to code points
  below 128; any other character is kept as it is and belongs to no class.
\<close>

text \<open>
  The case mappings are written on the bits of the character code, lowest bit first: the
  codes 65 to 90 (\<open>A\<close> to \<open>Z\<close>) have the three highest bits 010 and the five lowest bits
  between 1 and 26, the codes 97 to 122 (\<open>a\<close> to \<open>z\<close>) differ from them in the bit of 32.
\<close>

fun lower_char :: "char \<Rightarrow> char" where
  "lower_char (Char b0 b1 b2 b3 b4 b5 b6 b7) =
     (if \<not> b7 \<and> b6 \<and> \<not> b5 \<and> (b0 \<or> b1 \<or> b2 \<or> b3 \<or> b4) \<and> \<not> (b3 \<and> b4 \<and> (b2 \<or> b0 \<and> b1))
      then Char b0 b1 b2 b3 b4 True b6 b7
      else Char b0 b1 b2 b3 b4 b5 b6 b7)"

fun upper_char :: "char \<Rightarrow> char" where
  "upper_char (Char b0 b1 b2 b3 b4 b5 b6 b7) =
     (if \<not> b7 \<and> b6 \<and> b5 \<and> (b0 \<or> b1 \<or> b2 \<or> b3 \<or> b4) \<and> \<not> (b3 \<and> b4 \<and> (b2 \<or> b0 \<and> b1))
      then Char b0 b1 b2 b3 b4 False b6 b7
      else Char b0 b1 b2 b3 b4 b5 b6 b7)"

definition is_alpha :: "char \<Rightarrow> bool" where
  "is_alpha c = (c \<in> set ''abcdefghijklmnopqrstuvwxyzABCDEFGHIJKLMNOPQRSTUVWXYZ'')"

definition is_digit :: "char \<Rightarrow> bool" where
  "is_digit c = (c \<in> set ''0123456789'')"

definition is_word :: "char \<Rightarrow> bool" where
  "is_word c = (is_alpha c \<or> is_digit c \<or> c = CHR ''_'')"

text \<open>\<open>str.isspace\<close> and the class \<open>\s\<close>: tab, line feed, vertical tab, form feed,
  carriage return, the four separators 0x1C to 0x1F, and the space.\<close>

definition is_space :: "char \<Rightarrow> bool" where
  "is_space c = (c \<in> set [CHR 0x09, CHR 0x0A, CHR 0x0B, CHR 0x0C, CHR 0x0D,
                            CHR 0x1C, CHR 0x1D, CHR 0x1E, CHR 0x1F, CHR 0x20])"

text \<open>\<open>s.lower()\<close>\<close>

definition py_lower :: "string \<Rightarrow> string" where
  "py_lower s = map lower_char s"

text \<open>\<open>s.startswith(p)\<close>\<close>

fun startswith :: "string \<Rightarrow> string \<Rightarrow> bool" where
  "startswith s [] = True"
| "startswith [] (p # ps) = False"
| "startswith (c # cs) (p # ps) = (c = p \<and> startswith cs ps)"

text \<open>\<open>sub in s\<close> for two strings\<close>

fun str_contains :: "string \<Rightarrow> string \<Rightarrow> bool" where
  "str_contains sub [] = (sub = [])"
| "str_contains sub (c # cs) = (startswith (c # cs) sub \<or> str_contains sub cs)"

text \<open>\<open>s.strip()\<close>\<close>

definition py_strip :: "string \<Rightarrow> string" where
  "py_strip s = rev (dropWhile is_space (rev (dropWhile is_space s)))"

text \<open>\<open>s.title()\<close>: a cased character is upper-cased when the character before it is not
  cased, and lower-cased otherwise.\<close>

fun title_from :: "bool \<Rightarrow> string \<Rightarrow> string" where
  "title_from prev [] = []"
| "title_from prev (c # cs) =
     (if is_alpha c then (if prev then lower_char c else upper_char c) # title_from True cs
      else c # title_from False cs)"

definition py_title :: "string \<Rightarrow> string" where
  "py_title s = title_from False s"

text \<open>\<open>s.replace(old, new)\<close> where \<open>old\<close> is one character\<close>

definition replace_char :: "char \<Rightarrow> string \<Rightarrow> string \<Rightarrow> string" where
  "replace_char old new s = concat (map (\<lambda>c. if c = old then new else [c]) s)"

text \<open>\<open>str(n)\<close> for a natural number, and zero padding to a width as in \<open>f"{n:02}"\<close>\<close>

definition digit_char :: "nat \<Rightarrow> char" where
  "digit_char d = ''0123456789'' ! d"

fun str_nat :: "nat \<Rightarrow> string" where
  "str_nat n = (if n < 10 then [digit_char n] else str_nat (n div 10) @ [digit_char (n mod 10)])"

definition zero_pad :: "nat \<Rightarrow> nat \<Rightarrow> string" where
  "zero_pad w n = replicate (w - length (str_nat n)) (CHR ''0'') @ str_nat n"

section \<open>Regular expressions\<close>

text \<open>
  Every pattern of the program is a sequence of single characters and character classes,
  each with a repetition count, around one capturing group, and every call passes
  \<open>re.IGNORECASE\<close>. An item is an atom with its least count, its greatest count (\<open>None\<close>
  for no bound) and whether the repetition is greedy.
\<close>

datatype rx_atom = Lit char | Dot | Digit | Space | Word | NotChar char

datatype rx_item = Item rx_atom nat "nat option" bool

record regex =
  before :: "rx_item list"
  group :: "rx_item list"
  after :: "rx_item list"

fun atom_matches :: "rx_atom \<Rightarrow> char \<Rightarrow> bool" where
  "atom_matches (Lit l) c = (lower_char c = lower_char l)"
| "atom_matches Dot c = (c \<noteq> CHR 0x0A)"
| "atom_matches Digit c = is_digit c"
| "atom_matches Space c = is_space c"
| "atom_matches Word c = is_word c"
| "atom_matches (NotChar x) c = (c \<noteq> x)"

text \<open>
  The counts an item may take at the start of \<open>s\<close>, in the order in which they are tried:
  between its least count and the length of the run of matching characters (at most its
  greatest count), the longest first for a greedy item and the shortest first for a lazy one.
\<close>

definition counts_of :: "rx_item \<Rightarrow> string \<Rightarrow> nat list" where
  "counts_of it s =
     (case it of Item a lo hi greedy \<Rightarrow>
        (let run = length (takeWhile (atom_matches a) s);
             top = (case hi of None \<Rightarrow> run | Some h \<Rightarrow> min h run)
         in if greedy then rev [lo..<Suc top] else [lo..<Suc top]))"

text \<open>
  The backtracking matcher: the first count of an item for which the rest of the pattern
  matches is taken. The result is the number of characters each item took.
\<close>

fun match_here :: "rx_item list \<Rightarrow> string \<Rightarrow> nat list option"
  and try_counts :: "rx_item list \<Rightarrow> string \<Rightarrow> nat list \<Rightarrow> nat list option" where
  "match_here [] s = Some []"
| "match_here (it # its) s = try_counts its s (counts_of it s)"
| "try_counts its s [] = None"
| "try_counts its s (n # ns) =
     (case match_here its (drop n s) of
        Some ms \<Rightarrow> Some (n # ms)
      | None \<Rightarrow> try_counts its s ns)"

text \<open>A match at the start of \<open>s\<close>: the text of the group and the length of the match.\<close>

definition match_at :: "regex \<Rightarrow> string \<Rightarrow> (string \<times> nat) option" where
  "match_at r s =
     (case match_here (before r @ group r @ after r) s of
        None \<Rightarrow> None
      | Some ns \<Rightarrow>
          let a = sum_list (take (length (before r)) ns);
              b = sum_list (take (length (group r)) (drop (length (before r)) ns))
          in Some (take b (drop a s), sum_list ns))"

text \<open>\<open>re.search(pattern, s, re.IGNORECASE)\<close>, reduced to \<open>group(1)\<close> of the match\<close>

fun re_search :: "regex \<Rightarrow> string \<Rightarrow> string option" where
  "re_search r [] = map_option fst (match_at r [])"
| "re_search r (c # cs) =
     (case match_at r (c # cs) of Some m \<Rightarrow> Some (fst m) | None \<Rightarrow> re_search r cs)"

text \<open>\<open>re.findall(pattern, s, re.IGNORECASE)\<close> for a pattern with one group: the group
  texts of the successive matches, each search starting where the last match ended. No
  pattern of the program matches the empty string.\<close>

function re_findall :: "regex \<Rightarrow> string \<Rightarrow> string list" where
  "re_findall r [] = (case match_at r [] of Some m \<Rightarrow> [fst m] | None \<Rightarrow> [])"
| "re_findall r (c # cs) =
     (case match_at r (c # cs) of
        Some m \<Rightarrow> fst m # re_findall r (drop (snd m - 1) cs)
      | None \<Rightarrow> re_findall r cs)"
  by pat_completeness auto
termination
  by (relation "measure (\<lambda>(r, s). length s)") auto

definition lits :: "string \<Rightarrow> rx_item list" where
  "lits s = map (\<lambda>c. Item (Lit c) 1 (Some 1) True) s"

abbreviation plus_greedy :: "rx_atom \<Rightarrow> rx_item" where
  "plus_greedy a \<equiv> Item a 1 None True"

abbreviation star_lazy :: "rx_atom \<Rightarrow> rx_item" where
  "star_lazy a \<equiv> Item a 0 None False"

text \<open>\<^verbatim>\<open>promotion ended.*?on\s+(\d{1,2}/\d{1,2}/\d{4})\<close>\<close>

definition rx_expiration :: regex where
  "rx_expiration =
     \<lparr>before = lits ''promotion ended'' @ [star_lazy Dot] @ lits ''on'' @ [plus_greedy Space],
      group = [Item Digit 1 (Some 2) True] @ lits ''/'' @ [Item Digit 1 (Some 2) True]
                @ lits ''/'' @ [Item Digit 4 (Some 4) True],
      after = []\<rparr>"

text \<open>\<^verbatim>\<open>@(\w+)\.edu\<close>, \<^verbatim>\<open>@(\w+)\.com\<close>, \<^verbatim>\<open>@(\w+)\.org\<close>,
  \<^verbatim>\<open>university\s+of\s+(\w+)\<close>, \<^verbatim>\<open>(\w+)\s+university\<close>\<close>

definition email_patterns :: "regex list" where
  "email_patterns =
     [\<lparr>before = lits ''@'', group = [plus_greedy Word], after = lits ''.edu''\<rparr>,
      \<lparr>before = lits ''@'', group = [plus_greedy Word], after = lits ''.com''\<rparr>,
      \<lparr>before = lits ''@'', group = [plus_greedy Word], after = lits ''.org''\<rparr>,
      \<lparr>before = lits ''university'' @ [plus_greedy Space] @ lits ''of'' @ [plus_greedy Space],
       group = [plus_greedy Word], after = []\<rparr>,
      \<lparr>before = [], group = [plus_greedy Word],
       after = [plus_greedy Space] @ lits ''university''\<rparr>]"

text \<open>\<^verbatim>\<open>Only.*?members who work at ([^,]+)\<close>, \<^verbatim>\<open>([^,]+) discover a quicker way\<close>,
  \<^verbatim>\<open>([^,]+) employees\<close>, \<^verbatim>\<open>([^,]+) staff\<close>\<close>

definition company_indicators :: "regex list" where
  "company_indicators =
     [\<lparr>before = lits ''Only'' @ [star_lazy Dot] @ lits ''members who work at '',
       group = [plus_greedy (NotChar (CHR '',''))], after = []\<rparr>,
      \<lparr>before = [], group = [plus_greedy (NotChar (CHR '',''))],
       after = lits '' discover a quicker way''\<rparr>,
      \<lparr>before = [], group = [plus_greedy (NotChar (CHR '',''))], after = lits '' employees''\<rparr>,
      \<lparr>before = [], group = [plus_greedy (NotChar (CHR '',''))], after = lits '' staff''\<rparr>]"

section \<open>Code generation\<close>

text \<open>\<open>generate_promo_codes\<close>: both loops append to \<open>all_codes\<close>.\<close>

definition codes :: "string list" where
  "codes = map (zero_pad 2) [0..<100]"

definition prefixes :: "string list" where
  "prefixes = [''AS23'', ''CS23'', ''AS24'', ''CS24'', ''AS25'', ''CS25'']"

definition generate_promo_codes :: "string list" where
  "generate_promo_codes =
     foldl (\<lambda>all_codes prefix. foldl (\<lambda>all_codes code. all_codes @ [prefix @ code]) all_codes codes)
       [] prefixes"

section \<open>Python values and exceptions\<close>

text \<open>
  The values \<open>json.loads\<close> produces, which are also the values the program stores:
  \<open>None\<close>, booleans, integers, floats, strings, lists and dicts. A dict keeps its
  entries in insertion order; a float is represented by the real number it denotes.
\<close>

datatype json =
    JNull
  | JBool bool
  | JInt int
  | JFloat real
  | JStr string
  | JList "json list"
  | JDict "(string \<times> json) list"

datatype exn =
    JSONDecodeError | KeyError | TypeError | AttributeError | ValueError | RequestException

text \<open>\<open>JSONDecodeError\<close> is a subclass of \<open>ValueError\<close>; the other classes are unrelated.\<close>

definition caught_by :: "exn \<Rightarrow> exn \<Rightarrow> bool" where
  "caught_by e cls = (e = cls \<or> (e = JSONDecodeError \<and> cls = ValueError))"

definition exn_bind :: "exn + 'a \<Rightarrow> ('a \<Rightarrow> exn + 'b) \<Rightarrow> exn + 'b" where
  "exn_bind m f = (case m of Inl e \<Rightarrow> Inl e | Inr x \<Rightarrow> f x)"

text \<open>The truth value of a Python object, as \<open>if x:\<close> tests it.\<close>

fun truthy :: "json \<Rightarrow> bool" where
  "truthy JNull = False"
| "truthy (JBool b) = b"
| "truthy (JInt i) = (i \<noteq> 0)"
| "truthy (JFloat r) = (r \<noteq> 0)"
| "truthy (JStr s) = (s \<noteq> [])"
| "truthy (JList xs) = (xs \<noteq> [])"
| "truthy (JDict kvs) = (kvs \<noteq> [])"

text \<open>\<open>key in obj\<close> for a string \<open>key\<close>\<close>

fun py_in :: "string \<Rightarrow> json \<Rightarrow> exn + bool" where
  "py_in key (JDict kvs) = Inr (map_of kvs key \<noteq> None)"
| "py_in key (JList xs) = Inr (JStr key \<in> set xs)"
| "py_in key (JStr s) = Inr (str_contains key s)"
| "py_in key v = Inl TypeError"

text \<open>\<open>obj[key]\<close> for a string \<open>key\<close>\<close>

fun py_getitem :: "json \<Rightarrow> string \<Rightarrow> exn + json" where
  "py_getitem (JDict kvs) key = (case map_of kvs key of None \<Rightarrow> Inl KeyError | Some v \<Rightarrow> Inr v)"
| "py_getitem v key = Inl TypeError"

text \<open>\<open>obj.get(key, default)\<close>: only a dict has the method.\<close>

fun py_get :: "json \<Rightarrow> string \<Rightarrow> json \<Rightarrow> exn + json" where
  "py_get (JDict kvs) key dflt = Inr (case map_of kvs key of None \<Rightarrow> dflt | Some v \<Rightarrow> v)"
| "py_get v key dflt = Inl AttributeError"

text \<open>\<open>obj[key] = value\<close> for a string \<open>key\<close>\<close>

fun py_setitem :: "json \<Rightarrow> string \<Rightarrow> json \<Rightarrow> exn + json" where
  "py_setitem (JDict kvs) key v = Inr (JDict (AList.update key v kvs))"
| "py_setitem obj key v = Inl TypeError"

text \<open>\<open>len(obj)\<close>\<close>

fun py_len :: "json \<Rightarrow> exn + nat" where
  "py_len (JDict kvs) = Inr (length kvs)"
| "py_len (JList xs) = Inr (length xs)"
| "py_len (JStr s) = Inr (length s)"
| "py_len v = Inl TypeError"

section \<open>Dates\<close>

text \<open>A \<open>datetime\<close> object: its calendar fields and its UTC offset in seconds, \<open>None\<close>
  for a naive object.\<close>

record datetime =
  year :: nat
  month :: nat
  day :: nat
  hour :: nat
  minute :: nat
  second :: nat
  microsecond :: nat
  utcoffset :: "int option"

definition is_leap :: "nat \<Rightarrow> bool" where
  "is_leap y = (y mod 4 = 0 \<and> (y mod 100 \<noteq> 0 \<or> y mod 400 = 0))"

text \<open>\<open>date.toordinal()\<close>: the day number in the proleptic Gregorian calendar, for the
  fields of a valid date (a month from 1 to 12).\<close>

definition toordinal :: "datetime \<Rightarrow> int" where
  "toordinal d =
     (let y = int (year d) - 1
      in y * 365 + y div 4 - y div 100 + y div 400
         + int ([0, 31, 59, 90, 120, 151, 181, 212, 243, 273, 304, 334] ! (month d - 1))
         + (if 2 < month d \<and> is_leap (year d) then 1 else 0)
         + int (day d))"

definition wall_micros :: "datetime \<Rightarrow> int" where
  "wall_micros d =
     (((toordinal d * 24 + int (hour d)) * 60 + int (minute d)) * 60 + int (second d)) * 1000000
       + int (microsecond d)"

text \<open>\<open>a < b\<close>: two aware objects are compared as instants, two naive ones by their
  fields, and a naive with an aware one raises \<open>TypeError\<close>.\<close>

definition dt_less :: "datetime \<Rightarrow> datetime \<Rightarrow> exn + bool" where
  "dt_less a b =
     (case (utcoffset a, utcoffset b) of
        (Some oa, Some ob) \<Rightarrow> Inr (wall_micros a - oa * 1000000 < wall_micros b - ob * 1000000)
      | (None, None) \<Rightarrow> Inr (wall_micros a < wall_micros b)
      | _ \<Rightarrow> Inl TypeError)"

text \<open>\<open>d.strftime('%m/%d/%Y')\<close>, with the year in four digits as documented (C libraries
  differ on years before 1000).\<close>

definition strftime_mdY :: "datetime \<Rightarrow> string" where
  "strftime_mdY d = zero_pad 2 (month d) @ ''/'' @ zero_pad 2 (day d) @ ''/'' @ zero_pad 4 (year d)"

text \<open>\<open>d.isoformat()\<close> of a naive object\<close>

definition isoformat :: "datetime \<Rightarrow> string" where
  "isoformat d =
     zero_pad 4 (year d) @ ''-'' @ zero_pad 2 (month d) @ ''-'' @ zero_pad 2 (day d) @ ''T''
       @ zero_pad 2 (hour d) @ '':'' @ zero_pad 2 (minute d) @ '':'' @ zero_pad 2 (second d)
       @ (if microsecond d = 0 then [] else ''.'' @ zero_pad 6 (microsecond d))"

section \<open>The environment\<close>

record response =
  status_code :: int
  resp_text :: string

text \<open>
  What the program obtains from its libraries and from the outside world:
  \<^item> \<open>urljoin\<close> is \<open>urllib.parse.urljoin\<close>;
  \<^item> \<open>session_get url\<close> is \<open>self.session.get(url, timeout=10)\<close>, a response or an exception;
  \<^item> \<open>soup_scripts html\<close> lists \<open>script.string\<close> for every element that
    \<open>BeautifulSoup(html, 'html.parser').find_all('script', {'type': 'application/json'})\<close>
    returns (\<open>None\<close> where the element has no single string child), and
    \<open>soup_get_text html\<close> is \<open>get_text()\<close> of the same document;
  \<^item> \<open>json_loads\<close> is \<open>json.loads\<close> on a string (\<open>None\<close> for \<open>JSONDecodeError\<close>), and
    \<open>json_dump obj\<close> is the text \<open>json.dump(obj, f, indent=2, ensure_ascii=False)\<close> writes;
  \<^item> \<open>fromisoformat\<close> is \<open>datetime.fromisoformat\<close> (\<open>None\<close> for \<open>ValueError\<close>);
  \<^item> \<open>now\<close> is \<open>datetime.now()\<close>, a naive local time, and \<open>local_utcoffset\<close> the offset
    that \<open>astimezone()\<close> attaches to it; the clock is read once for each page;
  \<^item> \<open>open_read_ok\<close> and \<open>open_write_ok\<close> tell whether \<open>open\<close> of a path succeeds.
\<close>

record env =
  urljoin :: "string \<Rightarrow> string \<Rightarrow> string"
  session_get :: "string \<Rightarrow> exn + response"
  soup_scripts :: "string \<Rightarrow> string option list"
  soup_get_text :: "string \<Rightarrow> string"
  json_loads :: "string \<Rightarrow> json option"
  json_dump :: "json \<Rightarrow> string"
  fromisoformat :: "string \<Rightarrow> datetime option"
  now :: datetime
  local_utcoffset :: int
  open_read_ok :: "string \<Rightarrow> bool"
  open_write_ok :: "string \<Rightarrow> bool"

text \<open>\<open>d.astimezone()\<close> of a naive local time\<close>

definition astimezone :: "env \<Rightarrow> datetime \<Rightarrow> datetime" where
  "astimezone e d = d\<lparr>utcoffset := Some (local_utcoffset e)\<rparr>"

text \<open>\<open>json.loads(script.string)\<close>: \<open>TypeError\<close> for \<open>None\<close>.\<close>

definition loads_script :: "env \<Rightarrow> string option \<Rightarrow> exn + json" where
  "loads_script e script =
     (case script of
        None \<Rightarrow> Inl TypeError
      | Some s \<Rightarrow> (case json_loads e s of None \<Rightarrow> Inl JSONDecodeError | Some v \<Rightarrow> Inr v))"

text \<open>\<open>'props' in data and 'pageProps' in data['props']\<close>\<close>

definition has_page_props :: "json \<Rightarrow> exn + bool" where
  "has_page_props data =
     exn_bind (py_in ''props'' data) (\<lambda>b.
       if \<not> b then Inr False
       else exn_bind (py_getitem data ''props'') (\<lambda>props. py_in ''pageProps'' props))"

text \<open>\<open>data['props']['pageProps']\<close>\<close>

definition page_props :: "json \<Rightarrow> exn + json" where
  "page_props data = exn_bind (py_getitem data ''props'') (\<lambda>props. py_getitem props ''pageProps'')"

section \<open>Organization-name extraction\<close>

text \<open>
  Method 1 of \<open>extract_company_name\<close> on one script element: the body of the inner
  \<open>try\<close>. \<open>Inr (Some v)\<close> is \<open>return v\<close>, \<open>Inr None\<close> falls through to the next element,
  \<open>Inl e\<close> raises \<open>e\<close>.
\<close>

definition script_company_name :: "env \<Rightarrow> string option \<Rightarrow> exn + json option" where
  "script_company_name e script =
     exn_bind (loads_script e script) (\<lambda>data.
     exn_bind (has_page_props data) (\<lambda>found.
       if \<not> found then Inr None
       else
         exn_bind (page_props data) (\<lambda>pp.
         exn_bind (py_get pp ''content'' (JDict [])) (\<lambda>content.
         exn_bind (py_get content ''company_name'' JNull) (\<lambda>company_name.
           if truthy company_name then Inr (Some company_name)
           else
             exn_bind (page_props data) (\<lambda>pp.
             exn_bind (py_get pp ''promo_data'' (JDict [])) (\<lambda>promo_data.
             exn_bind (py_get promo_data ''company_name'' JNull) (\<lambda>company_name.
               if truthy company_name then Inr (Some company_name) else Inr None))))))))"

text \<open>The loop over the script elements: \<open>JSONDecodeError\<close> and \<open>KeyError\<close> continue with
  the next element, any other exception leaves the loop.\<close>

fun scripts_company_name :: "env \<Rightarrow> string option list \<Rightarrow> exn + json option" where
  "scripts_company_name e [] = Inr None"
| "scripts_company_name e (script # scripts) =
     (case script_company_name e script of
        Inl ex \<Rightarrow>
          if caught_by ex JSONDecodeError \<or> caught_by ex KeyError
          then scripts_company_name e scripts else Inl ex
      | Inr (Some company_name) \<Rightarrow> Inr (Some company_name)
      | Inr None \<Rightarrow> scripts_company_name e scripts)"

text \<open>Methods 2 and 3: the first pattern with a match gives the result.\<close>

fun first_match :: "regex list \<Rightarrow> string \<Rightarrow> string option" where
  "first_match [] text_content = None"
| "first_match (pattern # patterns) text_content =
     (case re_findall pattern text_content of
        [] \<Rightarrow> first_match patterns text_content
      | m # ms \<Rightarrow> Some m)"

text \<open>\<open>extract_company_name\<close>: \<open>None\<close> is Python's \<open>None\<close>. An exception that leaves
  method 1 is caught by the outer handler, which logs it, and the function returns \<open>None\<close>.\<close>

definition extract_company_name :: "env \<Rightarrow> string \<Rightarrow> json option" where
  "extract_company_name e html_content =
     (case scripts_company_name e (soup_scripts e html_content) of
        Inl ex \<Rightarrow> None
      | Inr (Some company_name) \<Rightarrow> Some company_name
      | Inr None \<Rightarrow>
          (let text_content = py_lower (soup_get_text e html_content)
           in case first_match email_patterns text_content of
                Some m \<Rightarrow> Some (JStr (py_title m))
              | None \<Rightarrow>
                  (case first_match company_indicators text_content of
                     Some m \<Rightarrow> Some (JStr (py_title (py_strip m)))
                   | None \<Rightarrow> None)))"

section \<open>Expiration detection and the page check\<close>

text \<open>The explicit expiration message: \<open>status\<close> and \<open>expiration_info\<close> after the first
  \<open>if\<close> of \<open>check_promo_url\<close>.\<close>

definition explicit_expiration :: "string \<Rightarrow> string \<times> string option" where
  "explicit_expiration page =
     (if str_contains ''promotion ended'' (py_lower page) \<or> str_contains ''expired'' (py_lower page)
      then (''expired'', re_search rx_expiration page)
      else (''active'', None))"

text \<open>The inner \<open>try\<close> on a truthy \<open>end_date\<close>: \<open>Inr (Some d)\<close> when the date \<open>d\<close> is in
  the past, \<open>Inr None\<close> when it is not. Only a string has \<open>replace\<close>.\<close>

definition end_date_passed :: "env \<Rightarrow> json \<Rightarrow> exn + datetime option" where
  "end_date_passed e end_date =
     (case end_date of
        JStr s \<Rightarrow>
          (case fromisoformat e (replace_char (CHR ''Z'') ''+00:00'' s) of
             None \<Rightarrow> Inl ValueError
           | Some end_datetime \<Rightarrow>
               exn_bind (dt_less end_datetime (astimezone e (now e))) (\<lambda>past.
                 Inr (if past then Some end_datetime else None)))
      | _ \<Rightarrow> Inl AttributeError)"

definition falsy_str :: "string option \<Rightarrow> bool" where
  "falsy_str s = (s = None \<or> s = Some [])"

text \<open>One script element in the second loop of \<open>check_promo_url\<close>: the new \<open>status\<close> and
  \<open>expiration_info\<close>, or the exception that leaves the body.\<close>

definition script_expiration ::
  "env \<Rightarrow> string option \<Rightarrow> string \<times> string option \<Rightarrow> exn + string \<times> string option" where
  "script_expiration e script acc =
     exn_bind (loads_script e script) (\<lambda>data.
     exn_bind (has_page_props data) (\<lambda>found.
       if \<not> found then Inr acc
       else
         exn_bind (page_props data) (\<lambda>pp.
         exn_bind (py_get pp ''promo_data'' (JDict [])) (\<lambda>promo_data.
         exn_bind (py_get promo_data ''end_date'' JNull) (\<lambda>end_date.
           if \<not> truthy end_date then Inr acc
           else
             (case end_date_passed e end_date of
                Inl ex \<Rightarrow> if caught_by ex ValueError then Inr acc else Inl ex
              | Inr None \<Rightarrow> Inr acc
              | Inr (Some end_datetime) \<Rightarrow>
                  Inr (''expired'',
                       if falsy_str (snd acc) then Some (strftime_mdY end_datetime)
                       else snd acc)))))))"

text \<open>The loop: \<open>JSONDecodeError\<close> and \<open>KeyError\<close> continue, any other exception is caught
  outside the loop, which ends there with what was assigned so far.\<close>

fun scripts_expiration ::
  "env \<Rightarrow> string option list \<Rightarrow> string \<times> string option \<Rightarrow> string \<times> string option" where
  "scripts_expiration e [] acc = acc"
| "scripts_expiration e (script # scripts) acc =
     (case script_expiration e script acc of
        Inr acc' \<Rightarrow> scripts_expiration e scripts acc'
      | Inl ex \<Rightarrow>
          if caught_by ex JSONDecodeError \<or> caught_by ex KeyError
          then scripts_expiration e scripts acc else acc)"

definition base_url :: string where
  "base_url = ''https://www.alaskaair.com/promo/''"

text \<open>The body of the \<open>try\<close> of \<open>check_promo_url\<close> after the response has arrived: the
  result dict, or \<open>None\<close>.\<close>

definition page_result :: "env \<Rightarrow> string \<Rightarrow> string \<Rightarrow> response \<Rightarrow> json option" where
  "page_result e promo_code url resp =
     (if status_code resp = 200 then
        if str_contains ''fast track'' (py_lower (resp_text resp))
           \<or> str_contains ''mileage plan'' (py_lower (resp_text resp))
        then
          (let company_name = extract_company_name e (resp_text resp);
               acc = scripts_expiration e (soup_scripts e (resp_text resp))
                       (explicit_expiration (resp_text resp));
               status = fst acc;
               expiration_info = snd acc
           in Some (JDict
                ([(''promo_code'', JStr promo_code),
                  (''url'', JStr url),
                  (''company_name'', case company_name of None \<Rightarrow> JNull | Some v \<Rightarrow> v),
                  (''found_date'', JStr (isoformat (now e))),
                  (''status'', JStr status)]
                 @ (case expiration_info of
                      None \<Rightarrow> []
                    | Some d \<Rightarrow> if d = [] then [] else [(''expiration_date'', JStr d)]))))
        else None
      else None)"

section \<open>The finder\<close>

text \<open>
  The state of an \<open>AlaskaPromoFinder\<close> and of the world it acts on: \<open>self.results_file\<close>,
  \<open>self.results\<close>, the files by path, and the URLs requested so far.
\<close>

record finder =
  results_file :: string
  results :: json
  files :: "string \<Rightarrow> string option"
  requested :: "string list"

text \<open>\<open>check_promo_url\<close>: one request; \<open>RequestException\<close> is caught and gives \<open>None\<close>.\<close>

definition check_promo_url :: "env \<Rightarrow> finder \<Rightarrow> string \<Rightarrow> (exn + json option) \<times> finder" where
  "check_promo_url e st promo_code =
     (let url = urljoin e base_url promo_code;
          st' = st\<lparr>requested := requested st @ [url]\<rparr>
      in case session_get e url of
           Inl ex \<Rightarrow> (if caught_by ex RequestException then Inr None else Inl ex, st')
         | Inr resp \<Rightarrow> (Inr (page_result e promo_code url resp), st'))"

text \<open>\<open>save_results\<close>: a failure to open the file is logged and nothing is written.\<close>

definition save_results :: "env \<Rightarrow> finder \<Rightarrow> finder" where
  "save_results e st =
     (if open_write_ok e (results_file st)
      then st\<lparr>files := (files st)(results_file st \<mapsto> json_dump e (results st))\<rparr>
      else st)"

text \<open>\<open>load_results\<close>: any exception while the file is read, decoded, or its length is
  logged, resets the store to the empty dict.\<close>

definition load_results :: "env \<Rightarrow> finder \<Rightarrow> finder" where
  "load_results e st =
     (case files st (results_file st) of
        None \<Rightarrow> st
      | Some content \<Rightarrow>
          if \<not> open_read_ok e (results_file st) then st\<lparr>results := JDict []\<rparr>
          else
            (case json_loads e content of
               None \<Rightarrow> st\<lparr>results := JDict []\<rparr>
             | Some v \<Rightarrow>
                 (case py_len v of
                    Inl ex \<Rightarrow> st\<lparr>results := JDict []\<rparr>
                  | Inr n \<Rightarrow> st\<lparr>results := v\<rparr>)))"

text \<open>The constructor: an empty store, then \<open>load_results\<close>.\<close>

definition new_finder :: "env \<Rightarrow> string \<Rightarrow> (string \<Rightarrow> string option) \<Rightarrow> finder" where
  "new_finder e path fs =
     load_results e \<lparr>results_file = path, results = JDict [], files = fs, requested = []\<rparr>"

section \<open>The scan\<close>

text \<open>\<open>xs.index(x)\<close>, \<open>None\<close> for \<open>ValueError\<close>\<close>

fun index_of :: "'a list \<Rightarrow> 'a \<Rightarrow> nat option" where
  "index_of [] x = None"
| "index_of (y # ys) x = (if y = x then Some 0 else map_option Suc (index_of ys x))"

text \<open>\<open>xs[:n]\<close>: a negative bound counts from the end.\<close>

definition slice_to :: "'a list \<Rightarrow> int \<Rightarrow> 'a list" where
  "slice_to xs n = (if 0 \<le> n then take (nat n) xs else take (nat (int (length xs) + n)) xs)"

text \<open>The list of codes the loop of \<open>search_promos\<close> runs over.\<close>

definition candidate_codes :: "int option \<Rightarrow> string option \<Rightarrow> string list" where
  "candidate_codes max_codes start_from =
     (let cs = generate_promo_codes;
          cs = (case start_from of
                  None \<Rightarrow> cs
                | Some s \<Rightarrow>
                    if s = [] then cs
                    else (case index_of cs s of None \<Rightarrow> cs | Some start_index \<Rightarrow> drop start_index cs));
          cs = (case max_codes of
                  None \<Rightarrow> cs
                | Some n \<Rightarrow> if n = 0 then cs else slice_to cs n)
      in cs)"

text \<open>The loop of \<open>search_promos\<close> with its counter \<open>found_count\<close>. An exception that
  nothing catches ends the scan. Logging and the sleep after each request change nothing
  of the state and are left out.\<close>

fun scan :: "env \<Rightarrow> string list \<Rightarrow> nat \<Rightarrow> finder \<Rightarrow> exn + nat \<times> finder" where
  "scan e [] found_count st = Inr (found_count, st)"
| "scan e (code # rest) found_count st =
     (case py_in code (results st) of
        Inl ex \<Rightarrow> Inl ex
      | Inr True \<Rightarrow> scan e rest found_count st
      | Inr False \<Rightarrow>
          (case check_promo_url e st code of
             (Inl ex, st1) \<Rightarrow> Inl ex
           | (Inr None, st1) \<Rightarrow> scan e rest found_count st1
           | (Inr (Some result), st1) \<Rightarrow>
               if \<not> truthy result then scan e rest found_count st1
               else
                 (case py_setitem (results st1) code result of
                    Inl ex \<Rightarrow> Inl ex
                  | Inr rs \<Rightarrow>
                      (let st2 = st1\<lparr>results := rs\<rparr>;
                           st3 = (if Suc found_count mod 5 = 0 then save_results e st2 else st2)
                       in scan e rest (Suc found_count) st3))))"

definition search_promos :: "env \<Rightarrow> int option \<Rightarrow> string option \<Rightarrow> finder \<Rightarrow> exn + finder" where
  "search_promos e max_codes start_from st =
     (case scan e (candidate_codes max_codes start_from) 0 st of
        Inl ex \<Rightarrow> Inl ex
      | Inr (found_count, st') \<Rightarrow> Inr (save_results e st'))"

text \<open>The two tests of \<open>check_promo_url\<close> on a response: status 200 and a marker phrase.\<close>

definition promo_page :: "response \<Rightarrow> bool" where
  "promo_page resp =
     (status_code resp = 200 \<and>
      (str_contains ''fast track'' (py_lower (resp_text resp))
       \<or> str_contains ''mileage plan'' (py_lower (resp_text resp))))"

definition confirmed :: "env \<Rightarrow> string \<Rightarrow> bool" where
  "confirmed e code =
     (case session_get e (urljoin e base_url code) of
        Inl ex \<Rightarrow> False
      | Inr resp \<Rightarrow> promo_page resp)"

section \<open>A test world\<close>

text \<open>
  A concrete environment on which the theorems below are tried. The server answers the
  request for AS2300 with a network error, serves four promo pages, and answers 404
  otherwise. Each page is one script element followed by its visible text; the parser
  functions return the payload of that element, its value, and the text. The dates are
  those \<open>fromisoformat\<close> returns for the two end-dates, the clock shows noon of
  2026-11-06, and the two store texts are what \<open>json.dump\<close> writes for the store before
  and after a scan of the first three codes; \<open>json_dump\<close> and \<open>json_loads\<close> are given on
  these stores and on the four payloads only.
\<close>

definition script_page :: "string \<Rightarrow> string \<Rightarrow> string" where
  \<open>script_page payload body = ''<script type="application/json">'' @ payload @ ''</script>'' @ body\<close>

definition payload_acme :: string where
  \<open>payload_acme = ''{"props":{"pageProps":{"content":{"company_name":"Acme Corp"}}}}''\<close>

definition body_acme :: string where
  "body_acme = ''Mileage Plan for hr@acme.com''"

definition json_acme :: json where
  "json_acme =
     JDict [(''props'', JDict [(''pageProps'',
       JDict [(''content'', JDict [(''company_name'', JStr ''Acme Corp'')])])])]"

definition payload_globex :: string where
  \<open>payload_globex = ''{"props":{"pageProps":{"promo_data":{"company_name":"Globex"}}}}''\<close>

definition body_globex :: string where
  "body_globex = ''Fast Track for University of Washington staff''"

definition json_globex :: json where
  "json_globex =
     JDict [(''props'', JDict [(''pageProps'',
       JDict [(''promo_data'', JDict [(''company_name'', JStr ''Globex'')])])])]"

definition payload_future :: string where
  \<open>payload_future = ''{"props":{"pageProps":{"content":{"company_name":"Initech"},"promo_data":{"end_date":"2099-12-31T00:00:00Z"}}}}''\<close>

definition body_future :: string where
  "body_future = ''Fast Track: expired codes are refused''"

definition payload_past :: string where
  \<open>payload_past = ''{"props":{"pageProps":{"content":{"company_name":"Hooli"},"promo_data":{"end_date":"2020-06-15T00:00:00Z"}}}}''\<close>

definition body_past :: string where
  "body_past = ''Mileage Plan: this promotion ended on 1/2/2024''"

definition json_dated :: "string \<Rightarrow> string \<Rightarrow> json" where
  "json_dated name d =
     JDict [(''props'', JDict [(''pageProps'',
       JDict [(''content'', JDict [(''company_name'', JStr name)]),
              (''promo_data'', JDict [(''end_date'', JStr d)])])])]"

definition midnight_utc :: "nat \<Rightarrow> nat \<Rightarrow> nat \<Rightarrow> datetime" where
  "midnight_utc y m d =
     \<lparr>year = y, month = m, day = d, hour = 0, minute = 0, second = 0, microsecond = 0,
      utcoffset = Some 0\<rparr>"

definition demo_pages :: "(string \<times> string \<times> string \<times> json) list" where
  "demo_pages =
     [(''AS2301'', payload_acme, body_acme, json_acme),
      (''AS2303'', payload_future, body_future, json_dated ''Initech'' ''2099-12-31T00:00:00Z''),
      (''AS2304'', payload_past, body_past, json_dated ''Hooli'' ''2020-06-15T00:00:00Z''),
      (''AS2305'', payload_globex, body_globex, json_globex)]"

definition demo_record :: json where
  "demo_record =
     JDict [(''promo_code'', JStr ''AS2300''),
            (''url'', JStr ''https://www.alaskaair.com/promo/AS2300''),
            (''company_name'', JNull),
            (''found_date'', JStr ''2026-10-01T09:30:00''),
            (''status'', JStr ''active'')]"

definition demo_acme_record :: json where
  "demo_acme_record =
     JDict [(''promo_code'', JStr ''AS2301''),
            (''url'', JStr ''https://www.alaskaair.com/promo/AS2301''),
            (''company_name'', JStr ''Acme Corp''),
            (''found_date'', JStr ''2026-11-06T12:00:00''),
            (''status'', JStr ''active'')]"

definition nl :: string where
  "nl = [CHR 0x0A]"

definition demo_store_text :: string where
  \<open>demo_store_text =
       ''{'' @ nl @
       ''  "AS2300": {'' @ nl @
       ''    "promo_code": "AS2300",'' @ nl @
       ''    "url": "https://www.alaskaair.com/promo/AS2300",'' @ nl @
       ''    "company_name": null,'' @ nl @
       ''    "found_date": "2026-10-01T09:30:00",'' @ nl @
       ''    "status": "active"'' @ nl @
       ''  }'' @ nl @
       ''}''\<close>

definition demo_store_text' :: string where
  \<open>demo_store_text' =
       ''{'' @ nl @
       ''  "AS2300": {'' @ nl @
       ''    "promo_code": "AS2300",'' @ nl @
       ''    "url": "https://www.alaskaair.com/promo/AS2300",'' @ nl @
       ''    "company_name": null,'' @ nl @
       ''    "found_date": "2026-10-01T09:30:00",'' @ nl @
       ''    "status": "active"'' @ nl @
       ''  },'' @ nl @
       ''  "AS2301": {'' @ nl @
       ''    "promo_code": "AS2301",'' @ nl @
       ''    "url": "https://www.alaskaair.com/promo/AS2301",'' @ nl @
       ''    "company_name": "Acme Corp",'' @ nl @
       ''    "found_date": "2026-11-06T12:00:00",'' @ nl @
       ''    "status": "active"'' @ nl @
       ''  }'' @ nl @
       ''}''\<close>

definition demo_env :: env where
  "demo_env =
     \<lparr>urljoin = (\<lambda>base ref. base @ ref),
      session_get = (\<lambda>url.
        if url = base_url @ ''AS2300'' then Inl RequestException
        else case find (\<lambda>(code, payload, body, v). url = base_url @ code) demo_pages of
               Some (code, payload, body, v) \<Rightarrow>
                 Inr \<lparr>status_code = 200, resp_text = script_page payload body\<rparr>
             | None \<Rightarrow> Inr \<lparr>status_code = 404, resp_text = ''Not Found''\<rparr>),
      soup_scripts = (\<lambda>html.
        case find (\<lambda>(code, payload, body, v). html = script_page payload body) demo_pages of
          Some (code, payload, body, v) \<Rightarrow> [Some payload]
        | None \<Rightarrow> []),
      soup_get_text = (\<lambda>html.
        case find (\<lambda>(code, payload, body, v). html = script_page payload body) demo_pages of
          Some (code, payload, body, v) \<Rightarrow> body
        | None \<Rightarrow> html),
      json_loads = (\<lambda>s.
        if s = demo_store_text then Some (JDict [(''AS2300'', demo_record)])
        else if s = demo_store_text'
        then Some (JDict [(''AS2300'', demo_record), (''AS2301'', demo_acme_record)])
        else case find (\<lambda>(code, payload, body, v). s = payload) demo_pages of
               Some (code, payload, body, v) \<Rightarrow> Some v
             | None \<Rightarrow> None),
      json_dump = (\<lambda>v.
        if v = JDict [(''AS2300'', demo_record)] then demo_store_text
        else if v = JDict [(''AS2300'', demo_record), (''AS2301'', demo_acme_record)]
        then demo_store_text'
        else ''{}''),
      fromisoformat = (\<lambda>s.
        if s = ''2099-12-31T00:00:00+00:00'' then Some (midnight_utc 2099 12 31)
        else if s = ''2020-06-15T00:00:00+00:00'' then Some (midnight_utc 2020 6 15)
        else None),
      now = \<lparr>year = 2026, month = 11, day = 6, hour = 12, minute = 0, second = 0,
               microsecond = 0, utcoffset = None\<rparr>,
      local_utcoffset = 0,
      open_read_ok = (\<lambda>path. True),
      open_write_ok = (\<lambda>path. True)\<rparr>"

definition demo_finder :: finder where
  "demo_finder = \<lparr>results_file = ''alaska_promos.json'',
                   results = JDict [(''AS2300'', demo_record)],
                   files = (\<lambda>path. None), requested = []\<rparr>"

section \<open>The case mappings\<close>

text \<open>\<open>lower_char\<close> and \<open>upper_char\<close> map the two alphabets onto each other and change
  no other character.\<close>

lemma lower_char_alphabet:
  "map lower_char ''ABCDEFGHIJKLMNOPQRSTUVWXYZ'' = ''abcdefghijklmnopqrstuvwxyz''"
  by simp

lemma upper_char_alphabet:
  "map upper_char ''abcdefghijklmnopqrstuvwxyz'' = ''ABCDEFGHIJKLMNOPQRSTUVWXYZ''"
  by simp

lemma lower_char_other:
  "c \<notin> set ''ABCDEFGHIJKLMNOPQRSTUVWXYZ'' \<Longrightarrow> lower_char c = c"
proof (cases c)
  case (Char b0 b1 b2 b3 b4 b5 b6 b7)
  assume "c \<notin> set ''ABCDEFGHIJKLMNOPQRSTUVWXYZ''"
  then show ?thesis
    unfolding Char
    by (cases b5; cases b6; cases b7; simp; cases b0; cases b1; cases b2; cases b3; cases b4; simp)
qed

lemma upper_char_other:
  "c \<notin> set ''abcdefghijklmnopqrstuvwxyz'' \<Longrightarrow> upper_char c = c"
proof (cases c)
  case (Char b0 b1 b2 b3 b4 b5 b6 b7)
  assume "c \<notin> set ''abcdefghijklmnopqrstuvwxyz''"
  then show ?thesis
    unfolding Char
    by (cases b5; cases b6; cases b7; simp; cases b0; cases b1; cases b2; cases b3; cases b4; simp)
qed

section \<open>Code generation: the generated sequence\<close>

lemma foldl_snoc_map: "foldl (\<lambda>acc x. acc @ [f x]) acc xs = acc @ map f xs"
  by (induction xs arbitrary: acc) simp_all

lemma foldl_snoc_concat:
  "foldl (\<lambda>acc p. foldl (\<lambda>acc x. acc @ [f p x]) acc xs) acc ps
     = acc @ concat (map (\<lambda>p. map (f p) xs) ps)"
  by (induction ps arbitrary: acc) (simp_all add: foldl_snoc_map)

lemma generate_promo_codes_concat:
  "generate_promo_codes = concat (map (\<lambda>prefix. map (\<lambda>code. prefix @ code) codes) prefixes)"
  unfolding generate_promo_codes_def by (simp add: foldl_snoc_concat)

lemma digit_char_inj: "a < 10 \<Longrightarrow> b < 10 \<Longrightarrow> digit_char a = digit_char b \<Longrightarrow> a = b"
proof -
  assume a: "a < 10" and b: "b < 10" and eq: "digit_char a = digit_char b"
  have d: "distinct ''0123456789''" by simp
  have l: "length ''0123456789'' = 10" by simp
  from eq have "''0123456789'' ! a = ''0123456789'' ! b" by (simp add: digit_char_def)
  with d a b l show "a = b" by (metis nth_eq_iff_index_eq)
qed

lemma zero_pad_2: "n < 100 \<Longrightarrow> zero_pad 2 n = [digit_char (n div 10), digit_char (n mod 10)]"
proof -
  assume n: "n < 100"
  show ?thesis
  proof (cases "n < 10")
    case True
    then show ?thesis by (simp add: zero_pad_def digit_char_def)
  next
    case False
    with n have "n div 10 < 10" by simp
    with False show ?thesis by (simp add: zero_pad_def)
  qed
qed

lemma zero_pad_2_inj: "n < 100 \<Longrightarrow> m < 100 \<Longrightarrow> zero_pad 2 n = zero_pad 2 m \<Longrightarrow> n = m"
proof -
  assume n: "n < 100" and m: "m < 100" and eq: "zero_pad 2 n = zero_pad 2 m"
  from n m have b: "n div 10 < 10" "m div 10 < 10" "n mod 10 < 10" "m mod 10 < 10" by simp_all
  from eq n m have "digit_char (n div 10) = digit_char (m div 10)"
    and "digit_char (n mod 10) = digit_char (m mod 10)" by (simp_all add: zero_pad_2)
  with b have "n div 10 = m div 10" "n mod 10 = m mod 10" by (blast intro: digit_char_inj)+
  then show "n = m" by (metis div_mult_mod_eq)
qed

lemma length_codes: "length codes = 100"
  by (simp add: codes_def)

lemma codes_nth: "s < 100 \<Longrightarrow> codes ! s = [digit_char (s div 10), digit_char (s mod 10)]"
  by (simp add: codes_def zero_pad_2)

lemma distinct_codes: "distinct codes"
  unfolding codes_def
  by (rule iffD2[OF distinct_map]) (auto simp: inj_on_def intro: zero_pad_2_inj)

lemma distinct_prefixed:
  "distinct ps \<Longrightarrow> \<forall>p \<in> set ps. length p = k \<Longrightarrow> distinct cs
   \<Longrightarrow> distinct (concat (map (\<lambda>p. map (\<lambda>c. p @ c) cs) ps))"
proof (induction ps)
  case Nil
  then show ?case by simp
next
  case (Cons p ps)
  have inner: "distinct (map (\<lambda>c. p @ c) cs)"
    using Cons.prems(3) by (simp add: distinct_map inj_on_def)
  have disj: "p @ c \<noteq> q @ c'" if "q \<in> set ps" for q c c'
  proof
    assume "p @ c = q @ c'"
    moreover have "length p = length q" using Cons.prems(2) that by simp
    ultimately have "p = q" by simp
    with Cons.prems(1) that show False by simp
  qed
  from Cons inner disj show ?case by auto
qed

lemma distinct_generate_promo_codes: "distinct generate_promo_codes"
  unfolding generate_promo_codes_concat
  by (rule distinct_prefixed[where k = 4]) (simp_all add: prefixes_def distinct_codes)

lemma length_generate_promo_codes: "length generate_promo_codes = 600"
  by (simp add: generate_promo_codes_concat prefixes_def length_codes)

lemma generate_promo_codes_nth:
  assumes "p < 6" "s < 100"
  shows "generate_promo_codes ! (100 * p + s) = prefixes ! p @ codes ! s"
proof -
  from assms(1) consider "p = 0" | "p = 1" | "p = 2" | "p = 3" | "p = 4" | "p = 5" by linarith
  then show ?thesis
    using assms(2)
    by cases (simp_all add: generate_promo_codes_concat prefixes_def nth_append length_codes)
qed

text \<open>
  Claim C6. \<open>generate_promo_codes\<close> returns 600 strings, no two of them equal; the string
  at position \<open>100 * p + s\<close> is the \<open>p\<close>-th prefix of AS23, CS23, AS24, CS24, AS25, CS25
  followed by the two decimal digits of \<open>s\<close>. It is a constant: every call returns this list.
\<close>

theorem generate_promo_codes_order:
  "length generate_promo_codes = 600 \<and> distinct generate_promo_codes \<and>
   (\<forall>p < 6. \<forall>s < 100.
      generate_promo_codes ! (100 * p + s)
        = [''AS23'', ''CS23'', ''AS24'', ''CS24'', ''AS25'', ''CS25''] ! p
          @ [''0123456789'' ! (s div 10), ''0123456789'' ! (s mod 10)])"
  using length_generate_promo_codes distinct_generate_promo_codes
  by (simp add: generate_promo_codes_nth codes_nth prefixes_def digit_char_def)

theorem generate_promo_codes_order_witness:
  "generate_promo_codes ! 107 = ''CS2307'' \<and> generate_promo_codes ! 599 = ''CS2599''"
proof -
  have a: "generate_promo_codes ! (100 * 1 + 7) = ''CS2307''"
    using generate_promo_codes_order[THEN conjunct2, THEN conjunct2, rule_format, of 1 7] by simp
  have b: "generate_promo_codes ! (100 * 5 + 99) = ''CS2599''"
    using generate_promo_codes_order[THEN conjunct2, THEN conjunct2, rule_format, of 5 99] by simp
  from a b show ?thesis by simp
qed

section \<open>The loop of the scan\<close>

lemma page_result_None: "\<not> promo_page resp \<Longrightarrow> page_result e code url resp = None"
  by (auto simp: page_result_def promo_page_def)

lemma page_result_Some:
  "promo_page resp \<Longrightarrow> \<exists>kvs. page_result e code url resp = Some (JDict kvs) \<and> kvs \<noteq> []"
  by (auto simp: page_result_def promo_page_def Let_def)

lemma check_promo_url_state:
  "snd (check_promo_url e st code) = st\<lparr>requested := requested st @ [urljoin e base_url code]\<rparr>"
  by (simp add: check_promo_url_def Let_def split: sum.splits)

lemma check_promo_url_confirmed:
  "confirmed e code \<Longrightarrow> \<exists>kvs. fst (check_promo_url e st code) = Inr (Some (JDict kvs)) \<and> kvs \<noteq> []"
  using page_result_Some
  by (fastforce simp: check_promo_url_def confirmed_def Let_def split: sum.splits)

lemma check_promo_url_not_confirmed:
  "\<not> confirmed e code \<Longrightarrow> fst (check_promo_url e st code) = Inr r \<Longrightarrow> r = None"
  using page_result_None
  by (auto simp: check_promo_url_def confirmed_def Let_def caught_by_def split: sum.splits if_splits)

lemma results_save_results: "results (save_results e st) = results st"
  by (simp add: save_results_def)

lemma requested_save_results: "requested (save_results e st) = requested st"
  by (simp add: save_results_def)

lemma scan_skip:
  "results st = JDict d \<Longrightarrow> map_of d code \<noteq> None \<Longrightarrow> scan e (code # rest) n st = scan e rest n st"
  by simp

lemma scan_miss:
  assumes "results st = JDict d" "map_of d code = None"
    and "fst (check_promo_url e st code) = Inr None"
  shows "scan e (code # rest) n st = scan e rest n (snd (check_promo_url e st code))"
  using assms by (cases "check_promo_url e st code") simp

lemma scan_hit:
  assumes "results st = JDict d" "map_of d code = None"
    and "fst (check_promo_url e st code) = Inr (Some (JDict kvs))" "kvs \<noteq> []"
  shows "\<exists>st1. results st1 = JDict (AList.update code (JDict kvs) d)
           \<and> requested st1 = requested st @ [urljoin e base_url code]
           \<and> scan e (code # rest) n st = scan e rest (Suc n) st1"
proof -
  obtain st0 where c: "check_promo_url e st code = (Inr (Some (JDict kvs)), st0)"
    using assms(3) by (cases "check_promo_url e st code") simp
  have st0: "st0 = st\<lparr>requested := requested st @ [urljoin e base_url code]\<rparr>"
    using check_promo_url_state[of e st code] c by simp
  let ?st2 = "st0\<lparr>results := JDict (AList.update code (JDict kvs) d)\<rparr>"
  let ?st3 = "if Suc n mod 5 = 0 then save_results e ?st2 else ?st2"
  have "scan e (code # rest) n st = scan e rest (Suc n) ?st3"
    using assms(1,2,4) c st0 by (simp add: Let_def)
  moreover have "results ?st3 = JDict (AList.update code (JDict kvs) d)"
    by (simp add: results_save_results)
  moreover have "requested ?st3 = requested st @ [urljoin e base_url code]"
    by (simp add: requested_save_results st0)
  ultimately show ?thesis by blast
qed

lemma scan_raise:
  assumes "results st = JDict d" "map_of d code = None"
    and "fst (check_promo_url e st code) = Inl ex"
  shows "scan e (code # rest) n st = Inl ex"
  using assms by (cases "check_promo_url e st code") simp

lemma scan_store:
  assumes "scan e cs n st = Inr (n', st')" "results st = JDict d"
  shows "\<exists>d'. results st' = JDict d'
           \<and> (\<forall>c v. map_of d c = Some v \<longrightarrow> map_of d' c = Some v)
           \<and> (\<forall>c. map_of d' c \<noteq> None \<longleftrightarrow> map_of d c \<noteq> None \<or> (c \<in> set cs \<and> confirmed e c))"
  using assms
proof (induction cs arbitrary: n st d)
  case Nil
  then show ?case by simp
next
  case (Cons code rest)
  show ?case
  proof (cases "map_of d code = None")
    case False
    with Cons.prems have "scan e rest n st = Inr (n', st')" by simp
    from Cons.IH[OF this Cons.prems(2)] obtain d' where d': "results st' = JDict d'"
      "\<forall>c v. map_of d c = Some v \<longrightarrow> map_of d' c = Some v"
      "\<forall>c. map_of d' c \<noteq> None \<longleftrightarrow> map_of d c \<noteq> None \<or> (c \<in> set rest \<and> confirmed e c)"
      by blast
    have "\<forall>c. map_of d' c \<noteq> None \<longleftrightarrow> map_of d c \<noteq> None \<or> (c \<in> set (code # rest) \<and> confirmed e c)"
      using d'(3) False by auto
    with d'(1,2) show ?thesis by blast
  next
    case True
    show ?thesis
    proof (cases "fst (check_promo_url e st code)")
      case (Inl ex)
      with scan_raise[OF Cons.prems(2) True Inl] Cons.prems(1) show ?thesis by simp
    next
      case (Inr r)
      show ?thesis
      proof (cases "confirmed e code")
        case False
        with Inr have "r = None" using check_promo_url_not_confirmed by blast
        with Inr have step: "scan e (code # rest) n st = scan e rest n (snd (check_promo_url e st code))"
          using scan_miss[OF Cons.prems(2) True] by simp
        have res: "results (snd (check_promo_url e st code)) = JDict d"
          by (simp add: check_promo_url_state Cons.prems(2))
        from Cons.IH[OF _ res] step Cons.prems(1) obtain d' where d': "results st' = JDict d'"
          "\<forall>c v. map_of d c = Some v \<longrightarrow> map_of d' c = Some v"
          "\<forall>c. map_of d' c \<noteq> None \<longleftrightarrow> map_of d c \<noteq> None \<or> (c \<in> set rest \<and> confirmed e c)"
          by metis
        have "\<forall>c. map_of d' c \<noteq> None \<longleftrightarrow> map_of d c \<noteq> None \<or> (c \<in> set (code # rest) \<and> confirmed e c)"
          using d'(3) False by auto
        with d'(1,2) show ?thesis by blast
      next
        case conf: True
        from check_promo_url_confirmed[OF conf, of st] obtain kvs where
          kvs: "fst (check_promo_url e st code) = Inr (Some (JDict kvs))" "kvs \<noteq> []" by blast
        from scan_hit[OF Cons.prems(2) True kvs, of rest n] obtain st1 where
          st1: "results st1 = JDict (AList.update code (JDict kvs) d)"
               "scan e (code # rest) n st = scan e rest (Suc n) st1" by blast
        from Cons.IH[OF _ st1(1)] st1(2) Cons.prems(1) obtain d' where d': "results st' = JDict d'"
          "\<forall>c v. map_of (AList.update code (JDict kvs) d) c = Some v \<longrightarrow> map_of d' c = Some v"
          "\<forall>c. map_of d' c \<noteq> None \<longleftrightarrow> map_of (AList.update code (JDict kvs) d) c \<noteq> None
                 \<or> (c \<in> set rest \<and> confirmed e c)"
          by metis
        have frame: "\<forall>c v. map_of d c = Some v \<longrightarrow> map_of d' c = Some v"
        proof (intro allI impI)
          fix c v assume "map_of d c = Some v"
          with True have "c \<noteq> code" by auto
          with \<open>map_of d c = Some v\<close> have "map_of (AList.update code (JDict kvs) d) c = Some v"
            by (simp add: update_conv')
          with d'(2) show "map_of d' c = Some v" by blast
        qed
        have "\<forall>c. map_of d' c \<noteq> None \<longleftrightarrow> map_of d c \<noteq> None \<or> (c \<in> set (code # rest) \<and> confirmed e c)"
          using d'(3) conf by (auto simp: update_conv')
        with d'(1) frame show ?thesis by blast
      qed
    qed
  qed
qed

lemma distinct_candidate_codes: "distinct (candidate_codes max_codes start_from)"
  by (auto simp: candidate_codes_def slice_to_def Let_def distinct_generate_promo_codes
           split: option.splits)

lemma scan_requested:
  assumes "scan e cs n st = Inr (n', st')" "results st = JDict d" "distinct cs"
  shows "requested st' = requested st @ map (urljoin e base_url) (filter (\<lambda>c. map_of d c = None) cs)"
  using assms
proof (induction cs arbitrary: n st d)
  case Nil
  then show ?case by simp
next
  case (Cons code rest)
  from Cons.prems(3) have dist: "distinct rest" and fresh: "code \<notin> set rest" by simp_all
  show ?case
  proof (cases "map_of d code = None")
    case False
    with Cons.prems have "scan e rest n st = Inr (n', st')" by simp
    from Cons.IH[OF this Cons.prems(2) dist] False show ?thesis by simp
  next
    case True
    show ?thesis
    proof (cases "fst (check_promo_url e st code)")
      case (Inl ex)
      with scan_raise[OF Cons.prems(2) True Inl] Cons.prems(1) show ?thesis by simp
    next
      case (Inr r)
      show ?thesis
      proof (cases r)
        case None
        with Inr have step: "scan e (code # rest) n st = scan e rest n (snd (check_promo_url e st code))"
          using scan_miss[OF Cons.prems(2) True] by simp
        have res: "results (snd (check_promo_url e st code)) = JDict d"
          by (simp add: check_promo_url_state Cons.prems(2))
        have "scan e rest n (snd (check_promo_url e st code)) = Inr (n', st')"
          using step Cons.prems(1) by simp
        from Cons.IH[OF this res dist] True show ?thesis
          by (simp add: check_promo_url_state)
      next
        case (Some result)
        have conf: "confirmed e code"
          using check_promo_url_not_confirmed[OF _ Inr] Some by auto
        from check_promo_url_confirmed[OF conf, of st] obtain kvs where
          kvs: "fst (check_promo_url e st code) = Inr (Some (JDict kvs))" "kvs \<noteq> []" by blast
        from scan_hit[OF Cons.prems(2) True kvs, of rest n] obtain st1 where
          st1: "results st1 = JDict (AList.update code (JDict kvs) d)"
               "requested st1 = requested st @ [urljoin e base_url code]"
               "scan e (code # rest) n st = scan e rest (Suc n) st1" by blast
        have "scan e rest (Suc n) st1 = Inr (n', st')" using st1(3) Cons.prems(1) by simp
        from Cons.IH[OF this st1(1) dist]
        have "requested st' = requested st1
                @ map (urljoin e base_url)
                    (filter (\<lambda>c. map_of (AList.update code (JDict kvs) d) c = None) rest)" .
        moreover have "filter (\<lambda>c. map_of (AList.update code (JDict kvs) d) c = None) rest
                         = filter (\<lambda>c. map_of d c = None) rest"
          using fresh by (intro filter_cong) (auto simp: update_conv')
        ultimately show ?thesis using True st1(2) by simp
      qed
    qed
  qed
qed

lemma search_promos_scan:
  "search_promos e max_codes start_from st = Inr st'
   \<Longrightarrow> \<exists>n' st1. scan e (candidate_codes max_codes start_from) 0 st = Inr (n', st1)
                \<and> results st' = results st1 \<and> requested st' = requested st1"
  by (auto simp: search_promos_def results_save_results requested_save_results
           split: sum.splits prod.splits)

lemma confirmed_iff:
  "confirmed e c \<longleftrightarrow>
     (\<exists>resp. session_get e (urljoin e base_url c) = Inr resp \<and> status_code resp = 200
        \<and> (str_contains ''fast track'' (py_lower (resp_text resp))
            \<or> str_contains ''mileage plan'' (py_lower (resp_text resp))))"
  by (auto simp: confirmed_def promo_page_def split: sum.splits)

lemma scan_returns:
  assumes "\<forall>url ex. session_get e url = Inl ex \<longrightarrow> ex = RequestException"
    and "results st = JDict d"
  shows "\<exists>n' st'. scan e cs n st = Inr (n', st')"
  using assms(2)
proof (induction cs arbitrary: n st d)
  case Nil
  then show ?case by simp
next
  case (Cons code rest)
  show ?case
  proof (cases "map_of d code = None")
    case False
    with Cons.prems Cons.IH[OF Cons.prems] show ?thesis by simp
  next
    case True
    have res: "results (snd (check_promo_url e st code)) = JDict d"
      by (simp add: check_promo_url_state Cons.prems)
    show ?thesis
    proof (cases "confirmed e code")
      case False
      have "fst (check_promo_url e st code) = Inr None"
        using False assms(1) page_result_None
        by (auto simp: check_promo_url_def confirmed_def Let_def caught_by_def split: sum.splits)
      from scan_miss[OF Cons.prems True this] Cons.IH[OF res] show ?thesis by simp
    next
      case conf: True
      from check_promo_url_confirmed[OF conf, of st] obtain kvs where
        kvs: "fst (check_promo_url e st code) = Inr (Some (JDict kvs))" "kvs \<noteq> []" by blast
      from scan_hit[OF Cons.prems True kvs, of rest n] obtain st1 where
        st1: "results st1 = JDict (AList.update code (JDict kvs) d)"
             "scan e (code # rest) n st = scan e rest (Suc n) st1" by blast
      from Cons.IH[OF st1(1)] st1(2) show ?thesis by simp
    qed
  qed
qed

lemma search_promos_returns:
  assumes "\<forall>url ex. session_get e url = Inl ex \<longrightarrow> ex = RequestException"
    and "results st = JDict d"
  shows "\<exists>st'. search_promos e max_codes start_from st = Inr st'"
proof -
  from scan_returns[OF assms, where cs = "candidate_codes max_codes start_from" and n = 0]
  obtain n' st' where "scan e (candidate_codes max_codes start_from) 0 st = Inr (n', st')"
    by blast
  then show ?thesis by (simp add: search_promos_def)
qed

lemma candidate_codes_first_three:
  "candidate_codes (Some 3) None = [''AS2300'', ''AS2301'', ''AS2302'']"
proof -
  have t: "take 3 [0..<100] = [0, 1, 2 :: nat]"
    by (simp add: take_upt upt_conv_Cons)
  have "take 3 generate_promo_codes = map (\<lambda>code. ''AS23'' @ code) (take 3 codes)"
    by (simp add: generate_promo_codes_concat prefixes_def length_codes take_map)
  also have "take 3 codes = map (zero_pad 2) (take 3 [0..<100])"
    unfolding codes_def by (rule take_map)
  finally show ?thesis
    unfolding t by (simp add: candidate_codes_def slice_to_def zero_pad_def digit_char_def)
qed

section \<open>What a match of the expiration pattern implies\<close>

lemma counts_of_bounds:
  "n \<in> set (counts_of (Item a lo hi g) s) \<Longrightarrow> lo \<le> n \<and> n \<le> length s"
proof -
  assume n: "n \<in> set (counts_of (Item a lo hi g) s)"
  define run where "run = length (takeWhile (atom_matches a) s)"
  define top where "top = (case hi of None \<Rightarrow> run | Some h \<Rightarrow> min h run)"
  have "run \<le> length s" unfolding run_def by (rule length_takeWhile_le)
  moreover have "top \<le> run" unfolding top_def by (simp split: option.splits)
  moreover have "lo \<le> n \<and> n \<le> top"
    using n unfolding counts_of_def run_def top_def by (auto simp: Let_def split: if_splits)
  ultimately show ?thesis by simp
qed

lemma try_counts_Some:
  "try_counts its s ns0 = Some ns
   \<Longrightarrow> \<exists>n \<in> set ns0. \<exists>ms. match_here its (drop n s) = Some ms \<and> ns = n # ms"
  by (induction ns0) (auto split: option.splits)

lemma match_here_bounds:
  "match_here its s = Some ns
   \<Longrightarrow> sum_list ns \<le> length s \<and> list_all2 (\<lambda>it n. case it of Item a lo hi g \<Rightarrow> lo \<le> n) its ns"
proof (induction its arbitrary: s ns)
  case Nil
  then show ?case by simp
next
  case (Cons it its)
  obtain a lo hi g where it: "it = Item a lo hi g" by (cases it)
  from Cons.prems have "try_counts its s (counts_of it s) = Some ns" by simp
  from try_counts_Some[OF this] obtain n ms where
    n: "n \<in> set (counts_of it s)" and ms: "match_here its (drop n s) = Some ms" "ns = n # ms"
    by blast
  from counts_of_bounds[of n a lo hi g s] n it have "lo \<le> n" "n \<le> length s" by simp_all
  with Cons.IH[OF ms(1)] ms(2) it show ?case by auto
qed

lemma counts_of_lit:
  "counts_of (Item (Lit l) (Suc 0) (Some (Suc 0)) True) s =
     (case s of [] \<Rightarrow> [] | c # cs \<Rightarrow> if lower_char c = lower_char l then [Suc 0] else [])"
  by (cases s) (simp_all add: counts_of_def Let_def)

lemma match_here_lit:
  assumes "match_here (Item (Lit l) 1 (Some 1) True # its) s = Some ns"
  shows "\<exists>c cs ms. s = c # cs \<and> lower_char c = lower_char l \<and> match_here its cs = Some ms"
  using assms by (cases s) (auto simp: counts_of_lit split: if_splits option.splits)

lemma match_here_lits:
  "match_here (lits p @ its) s = Some ns \<Longrightarrow> startswith (py_lower s) (py_lower p)"
proof (induction p arbitrary: s ns)
  case Nil
  then show ?case by (simp add: py_lower_def)
next
  case (Cons l p)
  from Cons.prems have "match_here (Item (Lit l) 1 (Some 1) True # (lits p @ its)) s = Some ns"
    by (simp add: lits_def)
  from match_here_lit[OF this] obtain c cs ms where
    s: "s = c # cs" "lower_char c = lower_char l" "match_here (lits p @ its) cs = Some ms"
    by blast
  from Cons.IH[OF s(3)] s(1,2) show ?case by (simp add: py_lower_def)
qed

lemma match_at_expiration:
  assumes "match_at rx_expiration s = Some m"
  shows "startswith (py_lower s) ''promotion ended'' \<and> fst m \<noteq> []"
proof -
  let ?its = "before rx_expiration @ group rx_expiration @ after rx_expiration"
  from assms obtain ns where ns: "match_here ?its s = Some ns"
    by (auto simp: match_at_def split: option.splits)
  define a where "a = sum_list (take (length (before rx_expiration)) ns)"
  define b where "b = sum_list (take (length (group rx_expiration)) (drop (length (before rx_expiration)) ns))"
  have m: "fst m = take b (drop a s)"
    using assms ns by (auto simp: match_at_def a_def b_def Let_def)
  have "match_here (lits ''promotion ended'' @ ([star_lazy Dot] @ lits ''on'' @ [plus_greedy Space]
          @ group rx_expiration @ after rx_expiration)) s = Some ns"
    using ns by (simp add: rx_expiration_def)
  from match_here_lits[OF this] have p: "startswith (py_lower s) ''promotion ended''"
    by (simp add: py_lower_def)
  from match_here_bounds[OF ns] have le: "sum_list ns \<le> length s"
    and all: "list_all2 (\<lambda>it n. case it of Item a lo hi g \<Rightarrow> lo \<le> n) ?its ns" by simp_all
  have len: "length ns = 24"
    using list_all2_lengthD[OF all] by (simp add: rx_expiration_def lits_def)
  have nb: "length (before rx_expiration) = 19" "length (group rx_expiration) = 5"
    by (simp_all add: rx_expiration_def lits_def)
  have "case ?its ! 19 of Item a lo hi g \<Rightarrow> lo \<le> ns ! 19"
    using list_all2_nthD[OF all, of 19] by (simp add: rx_expiration_def lits_def)
  then have one: "1 \<le> ns ! 19"
    by (simp add: rx_expiration_def lits_def nth_append)
  have dr: "drop 19 ns = ns ! 19 # drop 20 ns"
    using len Cons_nth_drop_Suc[of 19 ns] by simp
  have b_eq: "b = sum_list (drop 19 ns)" unfolding b_def nb using len by simp
  then have b1: "1 \<le> b" using one dr by simp
  have "a + b = sum_list ns"
    unfolding a_def b_eq nb using sum_list_append[of "take 19 ns" "drop 19 ns"] by simp
  with le have "a + b \<le> length s" by simp
  with b1 have "take b (drop a s) \<noteq> []" by auto
  with p m show ?thesis by simp
qed

lemma re_search_expiration:
  "re_search rx_expiration t = Some d \<Longrightarrow> str_contains ''promotion ended'' (py_lower t) \<and> d \<noteq> []"
proof (induction t)
  case Nil
  then obtain m where "match_at rx_expiration [] = Some m" by auto
  from match_at_expiration[OF this] show ?case by (simp add: py_lower_def)
next
  case (Cons c cs)
  show ?case
  proof (cases "match_at rx_expiration (c # cs)")
    case None
    with Cons show ?thesis by (simp add: py_lower_def)
  next
    case (Some m)
    with Cons.prems have "d = fst m" by simp
    with match_at_expiration[OF Some] show ?thesis by (simp add: py_lower_def)
  qed
qed

section \<open>The page check\<close>

lemma script_expiration_step:
  assumes "script_expiration e script acc = Inr acc'"
  shows "acc' = acc \<or> (fst acc' = ''expired'' \<and> (\<not> falsy_str (snd acc) \<longrightarrow> snd acc' = snd acc))"
  using assms
  by (auto simp: script_expiration_def exn_bind_def split: sum.splits option.splits if_splits)

lemma scripts_expiration_expired:
  "fst acc = ''expired'' \<Longrightarrow> fst (scripts_expiration e scripts acc) = ''expired''"
proof (induction scripts arbitrary: acc)
  case Nil
  then show ?case by simp
next
  case (Cons script scripts)
  show ?case
  proof (cases "script_expiration e script acc")
    case (Inl ex)
    with Cons show ?thesis by simp
  next
    case (Inr acc')
    from script_expiration_step[OF Inr] Cons.prems have "fst acc' = ''expired''" by auto
    with Cons.IH Inr show ?thesis by simp
  qed
qed

lemma scripts_expiration_info:
  "\<not> falsy_str (snd acc) \<Longrightarrow> snd (scripts_expiration e scripts acc) = snd acc"
proof (induction scripts arbitrary: acc)
  case Nil
  then show ?case by simp
next
  case (Cons script scripts)
  show ?case
  proof (cases "script_expiration e script acc")
    case (Inl ex)
    with Cons show ?thesis by simp
  next
    case (Inr acc')
    from script_expiration_step[OF Inr] Cons.prems have "snd acc' = snd acc" by auto
    with Cons.IH[of acc'] Cons.prems Inr show ?thesis by simp
  qed
qed

lemma check_promo_url_response:
  "session_get e (urljoin e base_url code) = Inr resp
   \<Longrightarrow> fst (check_promo_url e st code) = Inr (page_result e code (urljoin e base_url code) resp)"
  by (simp add: check_promo_url_def Let_def)

lemma page_result_fields:
  assumes "promo_page resp"
  shows "\<exists>kvs. page_result e code url resp = Some (JDict kvs)
           \<and> map_of kvs ''company_name''
               = Some (case extract_company_name e (resp_text resp) of None \<Rightarrow> JNull | Some v \<Rightarrow> v)
           \<and> map_of kvs ''status''
               = Some (JStr (fst (scripts_expiration e (soup_scripts e (resp_text resp))
                                   (explicit_expiration (resp_text resp)))))
           \<and> map_of kvs ''expiration_date''
               = (case snd (scripts_expiration e (soup_scripts e (resp_text resp))
                              (explicit_expiration (resp_text resp))) of
                    None \<Rightarrow> None
                  | Some d \<Rightarrow> if d = [] then None else Some (JStr d))"
  using assms
  by (auto simp: page_result_def promo_page_def Let_def split: option.splits)

lemma script_company_name_content:
  assumes "json_loads e payload = Some (JDict [(''props'', JDict [(''pageProps'',
             JDict [(''content'', JDict [(''company_name'', JStr name)])])])])"
    and "name \<noteq> []"
  shows "script_company_name e (Some payload) = Inr (Some (JStr name))"
  using assms
  by (simp add: script_company_name_def loads_script_def has_page_props_def page_props_def
        exn_bind_def)

lemma script_company_name_truthy:
  "script_company_name e script = Inr (Some v) \<Longrightarrow> truthy v"
  by (auto simp: script_company_name_def exn_bind_def split: sum.splits if_splits)

lemma scripts_company_name_truthy:
  "scripts_company_name e scripts = Inr (Some v) \<Longrightarrow> truthy v"
proof (induction scripts)
  case Nil
  then show ?case by simp
next
  case (Cons script scripts)
  show ?case
  proof (cases "script_company_name e script")
    case (Inl ex)
    with Cons show ?thesis by (simp split: if_splits)
  next
    case (Inr r)
    with Cons script_company_name_truthy[of e script] show ?thesis by (cases r) simp_all
  qed
qed

section \<open>The test world evaluated\<close>

lemmas demo_page_defs =
  demo_pages_def script_page_def payload_acme_def payload_future_def payload_past_def
  payload_globex_def body_acme_def body_future_def body_past_def body_globex_def

lemma demo_urljoin: "urljoin demo_env base_url code = base_url @ code"
  by (simp add: demo_env_def)

lemma demo_get_only_request_exceptions:
  "\<forall>url ex. session_get demo_env url = Inl ex \<longrightarrow> ex = RequestException"
  by (auto simp: demo_env_def split: if_splits option.splits)

lemma demo_get_failures:
  "session_get demo_env (base_url @ ''AS2300'') = Inl RequestException"
  "session_get demo_env (base_url @ ''AS2302'') = Inr \<lparr>status_code = 404, resp_text = ''Not Found''\<rparr>"
  "session_get demo_env (base_url @ ''AS2399'') = Inr \<lparr>status_code = 404, resp_text = ''Not Found''\<rparr>"
  by (simp_all add: demo_env_def demo_pages_def)

lemma demo_get_pages:
  "session_get demo_env (base_url @ ''AS2301'')
     = Inr \<lparr>status_code = 200, resp_text = script_page payload_acme body_acme\<rparr>"
  "session_get demo_env (base_url @ ''AS2303'')
     = Inr \<lparr>status_code = 200, resp_text = script_page payload_future body_future\<rparr>"
  "session_get demo_env (base_url @ ''AS2304'')
     = Inr \<lparr>status_code = 200, resp_text = script_page payload_past body_past\<rparr>"
  by (simp_all add: demo_env_def demo_pages_def)

lemma demo_scripts:
  "soup_scripts demo_env (script_page payload_acme body_acme) = [Some payload_acme]"
  "soup_scripts demo_env (script_page payload_future body_future) = [Some payload_future]"
  "soup_scripts demo_env (script_page payload_past body_past) = [Some payload_past]"
  "soup_scripts demo_env (script_page payload_globex body_globex) = [Some payload_globex]"
  by (simp_all add: demo_env_def demo_page_defs)

lemma demo_texts:
  "soup_get_text demo_env (script_page payload_acme body_acme) = body_acme"
  "soup_get_text demo_env (script_page payload_globex body_globex) = body_globex"
  by (simp_all add: demo_env_def demo_page_defs)

lemma demo_loads:
  "json_loads demo_env payload_acme = Some json_acme"
  "json_loads demo_env payload_future = Some (json_dated ''Initech'' ''2099-12-31T00:00:00Z'')"
  "json_loads demo_env payload_past = Some (json_dated ''Hooli'' ''2020-06-15T00:00:00Z'')"
  "json_loads demo_env payload_globex = Some json_globex"
  by (simp_all add: demo_env_def demo_page_defs demo_store_text_def demo_store_text'_def)

lemma demo_markers:
  "str_contains ''mileage plan'' (py_lower (script_page payload_acme body_acme))"
  "\<not> str_contains ''promotion ended'' (py_lower (script_page payload_acme body_acme))"
  "\<not> str_contains ''expired'' (py_lower (script_page payload_acme body_acme))"
  "str_contains ''fast track'' (py_lower (script_page payload_future body_future))"
  "\<not> str_contains ''promotion ended'' (py_lower (script_page payload_future body_future))"
  "str_contains ''expired'' (py_lower (script_page payload_future body_future))"
  "str_contains ''mileage plan'' (py_lower (script_page payload_past body_past))"
  by (simp_all add: demo_page_defs py_lower_def)

lemma demo_searches:
  "re_search rx_expiration (script_page payload_future body_future) = None"
  "re_search rx_expiration (script_page payload_past body_past) = Some ''1/2/2024''"
  by code_simp+

lemma demo_email_match: "first_match email_patterns (py_lower body_acme) = Some ''acme''"
  by code_simp

lemma demo_university_match: "first_match email_patterns (py_lower body_globex) = Some ''washington''"
  by code_simp

lemmas script_defs =
  script_company_name_def script_expiration_def loads_script_def has_page_props_def
  page_props_def exn_bind_def caught_by_def falsy_str_def json_acme_def json_globex_def
  json_dated_def

lemma demo_company_names:
  "script_company_name demo_env (Some payload_acme) = Inr (Some (JStr ''Acme Corp''))"
  "script_company_name demo_env (Some payload_future) = Inr (Some (JStr ''Initech''))"
  "script_company_name demo_env (Some payload_past) = Inr (Some (JStr ''Hooli''))"
  "script_company_name demo_env (Some payload_globex) = Inr (Some (JStr ''Globex''))"
  by (simp_all add: demo_loads script_defs)

lemma demo_now_before_2099:
  "dt_less (astimezone demo_env (now demo_env)) (midnight_utc 2099 12 31) = Inr True"
  by code_simp

lemma demo_end_dates:
  "end_date_passed demo_env (JStr ''2099-12-31T00:00:00Z'') = Inr None"
  "end_date_passed demo_env (JStr ''2020-06-15T00:00:00Z'') = Inr (Some (midnight_utc 2020 6 15))"
  by code_simp+

lemma demo_strftime: "strftime_mdY (midnight_utc 2020 6 15) = ''06/15/2020''"
  by code_simp

lemma demo_isoformat: "isoformat (now demo_env) = ''2026-11-06T12:00:00''"
  by code_simp

lemma demo_expirations:
  "script_expiration demo_env (Some payload_future) (''expired'', None) = Inr (''expired'', None)"
  "script_expiration demo_env (Some payload_past) (''active'', None)
     = Inr (''expired'', Some ''06/15/2020'')"
  by (simp_all add: demo_loads script_defs demo_end_dates demo_strftime)

lemma demo_check_future:
  "fst (check_promo_url demo_env demo_finder ''AS2303'') =
     Inr (Some (JDict
       [(''promo_code'', JStr ''AS2303''),
        (''url'', JStr ''https://www.alaskaair.com/promo/AS2303''),
        (''company_name'', JStr ''Initech''),
        (''found_date'', JStr ''2026-11-06T12:00:00''),
        (''status'', JStr ''expired'')]))"
  by (simp add: check_promo_url_def demo_urljoin demo_get_pages page_result_def demo_markers
        extract_company_name_def demo_scripts demo_company_names explicit_expiration_def
        demo_searches demo_expirations demo_isoformat)
     (simp add: base_url_def Let_def)

lemma demo_fromisoformat:
  "fromisoformat demo_env (replace_char (CHR ''Z'') ''+00:00'' ''2099-12-31T00:00:00Z'')
     = Some (midnight_utc 2099 12 31)"
  by code_simp

lemma demo_get_join:
  "session_get demo_env (urljoin demo_env base_url ''AS2301'')
     = Inr \<lparr>status_code = 200, resp_text = script_page payload_acme body_acme\<rparr>"
  "session_get demo_env (urljoin demo_env base_url ''AS2303'')
     = Inr \<lparr>status_code = 200, resp_text = script_page payload_future body_future\<rparr>"
  "session_get demo_env (urljoin demo_env base_url ''AS2304'')
     = Inr \<lparr>status_code = 200, resp_text = script_page payload_past body_past\<rparr>"
  "session_get demo_env (urljoin demo_env base_url ''AS2300'') = Inl RequestException"
  "session_get demo_env (urljoin demo_env base_url ''AS2302'')
     = Inr \<lparr>status_code = 404, resp_text = ''Not Found''\<rparr>"
  "session_get demo_env (urljoin demo_env base_url ''AS2399'')
     = Inr \<lparr>status_code = 404, resp_text = ''Not Found''\<rparr>"
  by (simp_all add: demo_urljoin demo_get_pages demo_get_failures)

section \<open>The claims about the page check and the scan\<close>

text \<open>
  Claim C1, as amended. If a page passes the two tests of \<open>check_promo_url\<close> and its text
  contains \<open>promotion ended\<close> or \<open>expired\<close> (in any case), the record has status
  \<open>expired\<close>: whether or not the date pattern matches, and whatever the structured-data
  blocks carry. The phrase alone sets the status, and an end-date in the future does not
  take it back.
\<close>

theorem check_promo_url_phrase_expired:
  assumes "session_get e (urljoin e base_url code) = Inr resp"
    and "status_code resp = 200"
    and "str_contains ''fast track'' (py_lower (resp_text resp))
         \<or> str_contains ''mileage plan'' (py_lower (resp_text resp))"
    and "str_contains ''promotion ended'' (py_lower (resp_text resp))
         \<or> str_contains ''expired'' (py_lower (resp_text resp))"
  shows "\<exists>r. fst (check_promo_url e st code) = Inr (Some r)
           \<and> py_getitem r ''status'' = Inr (JStr ''expired'')"
proof -
  have pp: "promo_page resp" using assms(2,3) by (simp add: promo_page_def)
  have "fst (explicit_expiration (resp_text resp)) = ''expired''"
    using assms(4) by (auto simp: explicit_expiration_def)
  then have "fst (scripts_expiration e (soup_scripts e (resp_text resp))
                   (explicit_expiration (resp_text resp))) = ''expired''"
    by (rule scripts_expiration_expired)
  with page_result_fields[OF pp, of e code "urljoin e base_url code"]
    check_promo_url_response[OF assms(1), of st]
  show ?thesis by auto
qed

theorem check_promo_url_phrase_expired_witness:
  "str_contains ''expired'' (py_lower (script_page payload_future body_future))
   \<and> (\<exists>r. fst (check_promo_url demo_env demo_finder ''AS2303'') = Inr (Some r)
          \<and> py_getitem r ''status'' = Inr (JStr ''expired''))"
  using check_promo_url_phrase_expired[OF demo_get_join(2), of demo_finder] demo_markers
  by simp

text \<open>
  The claim as stated fails on the page served for AS2303: its text contains \<open>expired\<close>,
  the date pattern does not match, its structured-data block has an end-date that parses to
  a moment after the present one, and the record has status \<open>expired\<close>, not \<open>active\<close>.
\<close>

theorem check_promo_url_phrase_active_counterexample:
  "session_get demo_env (urljoin demo_env base_url ''AS2303'')
     = Inr \<lparr>status_code = 200, resp_text = script_page payload_future body_future\<rparr>
   \<and> str_contains ''fast track'' (py_lower (script_page payload_future body_future))
   \<and> str_contains ''expired'' (py_lower (script_page payload_future body_future))
   \<and> re_search rx_expiration (script_page payload_future body_future) = None
   \<and> soup_scripts demo_env (script_page payload_future body_future) = [Some payload_future]
   \<and> json_loads demo_env payload_future = Some (json_dated ''Initech'' ''2099-12-31T00:00:00Z'')
   \<and> fromisoformat demo_env (replace_char (CHR ''Z'') ''+00:00'' ''2099-12-31T00:00:00Z'')
       = Some (midnight_utc 2099 12 31)
   \<and> dt_less (astimezone demo_env (now demo_env)) (midnight_utc 2099 12 31) = Inr True
   \<and> fst (check_promo_url demo_env demo_finder ''AS2303'') =
       Inr (Some (JDict
         [(''promo_code'', JStr ''AS2303''),
          (''url'', JStr ''https://www.alaskaair.com/promo/AS2303''),
          (''company_name'', JStr ''Initech''),
          (''found_date'', JStr ''2026-11-06T12:00:00''),
          (''status'', JStr ''expired'')]))
   \<and> JStr ''expired'' \<noteq> JStr ''active''"
  using demo_get_join(2) demo_markers(4,6) demo_searches(1) demo_scripts(2) demo_loads(2)
    demo_fromisoformat demo_now_before_2099 demo_check_future
  by simp

text \<open>
  Claim C2. When \<open>search_promos\<close> returns, started on a store that is a dict, a code has
  a record in the store if and only if it had one at the start, or it is one of the codes
  of the scan and the answer to its request had status 200 and a marker phrase in its
  body. So a code whose request gave another status, a network error, or no marker phrase
  is not added.
\<close>

theorem search_promos_records_confirmed:
  assumes "search_promos e max_codes start_from st = Inr st'" and "results st = JDict d"
  shows "\<exists>d'. results st' = JDict d' \<and>
           (map_of d' code \<noteq> None \<longleftrightarrow>
              map_of d code \<noteq> None
              \<or> (code \<in> set (candidate_codes max_codes start_from)
                 \<and> (\<exists>resp. session_get e (urljoin e base_url code) = Inr resp
                       \<and> status_code resp = 200
                       \<and> (str_contains ''fast track'' (py_lower (resp_text resp))
                           \<or> str_contains ''mileage plan'' (py_lower (resp_text resp))))))"
proof -
  from search_promos_scan[OF assms(1)] obtain n' st1 where
    sc: "scan e (candidate_codes max_codes start_from) 0 st = Inr (n', st1)"
    and eq: "results st' = results st1" by blast
  from scan_store[OF sc assms(2)] eq show ?thesis
    unfolding confirmed_iff by auto
qed

theorem search_promos_records_confirmed_witness:
  "\<exists>st'. search_promos demo_env (Some 3) None demo_finder = Inr st'
     \<and> (\<exists>d'. results st' = JDict d' \<and> map_of d' ''AS2300'' \<noteq> None
            \<and> map_of d' ''AS2301'' \<noteq> None \<and> map_of d' ''AS2302'' = None)"
proof -
  have d: "results demo_finder = JDict [(''AS2300'', demo_record)]"
    by (simp add: demo_finder_def)
  from search_promos_returns[OF demo_get_only_request_exceptions d]
  obtain st' where st': "search_promos demo_env (Some 3) None demo_finder = Inr st'" by blast
  note iff = search_promos_records_confirmed[OF st' d]
  from iff[of "''AS2300''"] obtain d' where d': "results st' = JDict d'"
    and 0: "map_of d' ''AS2300'' \<noteq> None" by auto
  from iff[of "''AS2301''"] d' have 1: "map_of d' ''AS2301'' \<noteq> None"
    using demo_get_join(1) demo_markers(1) by (auto simp: candidate_codes_first_three)
  from iff[of "''AS2302''"] d' have 2: "map_of d' ''AS2302'' = None"
    using demo_get_join(5) by (auto simp: candidate_codes_first_three)
  from st' d' 0 1 2 show ?thesis by blast
qed

text \<open>
  Claim C3. If a page passes the two tests of \<open>check_promo_url\<close> and the date pattern
  captures a string \<open>d\<close> in its text, the record has \<open>expiration_date\<close> equal to \<open>d\<close> as it
  was captured, and status \<open>expired\<close>, whatever end-dates the structured-data blocks
  carry: a structured-data date is written only when the pattern captured nothing. On
  the page served for AS2304 the captured \<open>1/2/2024\<close> is written, where the end-date of
  its block alone would give \<open>06/15/2020\<close>.
\<close>

theorem check_promo_url_explicit_date:
  assumes "session_get e (urljoin e base_url code) = Inr resp"
    and "status_code resp = 200"
    and "str_contains ''fast track'' (py_lower (resp_text resp))
         \<or> str_contains ''mileage plan'' (py_lower (resp_text resp))"
    and "re_search rx_expiration (resp_text resp) = Some d"
  shows "\<exists>r. fst (check_promo_url e st code) = Inr (Some r)
           \<and> py_getitem r ''expiration_date'' = Inr (JStr d)
           \<and> py_getitem r ''status'' = Inr (JStr ''expired'')"
proof -
  have pp: "promo_page resp" using assms(2,3) by (simp add: promo_page_def)
  from re_search_expiration[OF assms(4)]
  have phrase: "str_contains ''promotion ended'' (py_lower (resp_text resp))" and d: "d \<noteq> []"
    by simp_all
  have ex: "explicit_expiration (resp_text resp) = (''expired'', Some d)"
    using phrase assms(4) by (simp add: explicit_expiration_def)
  have "fst (scripts_expiration e (soup_scripts e (resp_text resp))
               (explicit_expiration (resp_text resp))) = ''expired''"
    by (rule scripts_expiration_expired) (simp add: ex)
  moreover have "snd (scripts_expiration e (soup_scripts e (resp_text resp))
               (explicit_expiration (resp_text resp))) = Some d"
    using scripts_expiration_info[of "(''expired'', Some d)" e] d
    by (simp add: ex falsy_str_def)
  ultimately show ?thesis
    using page_result_fields[OF pp, of e code "urljoin e base_url code"]
      check_promo_url_response[OF assms(1), of st] d
    by auto
qed

theorem check_promo_url_explicit_date_witness:
  "re_search rx_expiration (script_page payload_past body_past) = Some ''1/2/2024''
   \<and> end_date_passed demo_env (JStr ''2020-06-15T00:00:00Z'') = Inr (Some (midnight_utc 2020 6 15))
   \<and> strftime_mdY (midnight_utc 2020 6 15) = ''06/15/2020''
   \<and> scripts_expiration demo_env [Some payload_past] (''active'', None)
       = (''expired'', Some ''06/15/2020'')
   \<and> (\<exists>r. fst (check_promo_url demo_env demo_finder ''AS2304'') = Inr (Some r)
          \<and> py_getitem r ''expiration_date'' = Inr (JStr ''1/2/2024'')
          \<and> py_getitem r ''status'' = Inr (JStr ''expired''))"
proof -
  have s: "re_search rx_expiration
             (resp_text \<lparr>status_code = 200, resp_text = script_page payload_past body_past\<rparr>)
           = Some ''1/2/2024''"
    by (simp add: demo_searches)
  show ?thesis
    using check_promo_url_explicit_date[OF demo_get_join(3) _ _ s, of demo_finder]
      demo_markers(7) demo_searches(2) demo_end_dates(2) demo_strftime demo_expirations(2)
    by simp
qed

text \<open>
  Claim C4. For a response with status 200 whose body contains \<open>mileage plan\<close> and
  neither \<open>promotion ended\<close> nor \<open>expired\<close> (in any case), and whose script elements of
  type \<open>application/json\<close> are one element with the payload
  \<open>{"props": {"pageProps": {"content": {"company_name": "Acme Corp"}}}}\<close>,
  \<open>check_promo_url\<close> returns a record with \<open>company_name\<close> equal to \<open>Acme Corp\<close> and
  \<open>status\<close> equal to \<open>active\<close>.
\<close>

theorem check_promo_url_acme:
  assumes "session_get e (urljoin e base_url code) = Inr resp"
    and "status_code resp = 200"
    and "str_contains ''mileage plan'' (py_lower (resp_text resp))"
    and "\<not> str_contains ''promotion ended'' (py_lower (resp_text resp))"
    and "\<not> str_contains ''expired'' (py_lower (resp_text resp))"
    and "soup_scripts e (resp_text resp) = [Some payload]"
    and "json_loads e payload = Some (JDict [(''props'', JDict [(''pageProps'',
           JDict [(''content'', JDict [(''company_name'', JStr ''Acme Corp'')])])])])"
  shows "\<exists>r. fst (check_promo_url e st code) = Inr (Some r)
           \<and> py_getitem r ''company_name'' = Inr (JStr ''Acme Corp'')
           \<and> py_getitem r ''status'' = Inr (JStr ''active'')"
proof -
  have pp: "promo_page resp" using assms(2,3) by (simp add: promo_page_def)
  have "script_company_name e (Some payload) = Inr (Some (JStr ''Acme Corp''))"
    using assms(7) by (rule script_company_name_content) simp
  then have name: "extract_company_name e (resp_text resp) = Some (JStr ''Acme Corp'')"
    by (simp add: extract_company_name_def assms(6))
  have ex: "explicit_expiration (resp_text resp) = (''active'', None)"
    using assms(4,5) by (simp add: explicit_expiration_def)
  have "script_expiration e (Some payload) (''active'', None) = Inr (''active'', None)"
    using assms(7)
    by (simp add: script_expiration_def loads_script_def has_page_props_def page_props_def
          exn_bind_def)
  then have "scripts_expiration e (soup_scripts e (resp_text resp))
               (explicit_expiration (resp_text resp)) = (''active'', None)"
    by (simp add: assms(6) ex)
  with name page_result_fields[OF pp, of e code "urljoin e base_url code"]
    check_promo_url_response[OF assms(1), of st]
  show ?thesis by auto
qed

theorem check_promo_url_acme_witness:
  "\<exists>r. fst (check_promo_url demo_env demo_finder ''AS2301'') = Inr (Some r)
     \<and> py_getitem r ''company_name'' = Inr (JStr ''Acme Corp'')
     \<and> py_getitem r ''status'' = Inr (JStr ''active'')"
proof -
  have l: "json_loads demo_env payload_acme = Some (JDict [(''props'', JDict [(''pageProps'',
             JDict [(''content'', JDict [(''company_name'', JStr ''Acme Corp'')])])])])"
    using demo_loads(1) by (simp add: json_acme_def)
  have s: "soup_scripts demo_env
             (resp_text \<lparr>status_code = 200, resp_text = script_page payload_acme body_acme\<rparr>)
           = [Some payload_acme]"
    by (simp add: demo_scripts)
  show ?thesis
    using check_promo_url_acme[OF demo_get_join(1) _ _ _ _ s l, of demo_finder] demo_markers(1-3)
    by simp
qed

text \<open>
  Claim C5. The three heuristics of \<open>extract_company_name\<close> are tried in a fixed order
  and the first success is returned. A name found in the structured-data blocks is the
  result (and is not empty), whatever the visible text matches; when the blocks give
  nothing, the first capture of the email and university patterns is the result,
  title-cased; when these give nothing either, the first capture of the phrase patterns,
  stripped and title-cased.
\<close>

theorem extract_company_name_priority:
  "(scripts_company_name e (soup_scripts e html) = Inr (Some v)
      \<longrightarrow> extract_company_name e html = Some v \<and> truthy v)
   \<and> (scripts_company_name e (soup_scripts e html) = Inr None
      \<longrightarrow> first_match email_patterns (py_lower (soup_get_text e html)) = Some m
      \<longrightarrow> extract_company_name e html = Some (JStr (py_title m)))
   \<and> (scripts_company_name e (soup_scripts e html) = Inr None
      \<longrightarrow> first_match email_patterns (py_lower (soup_get_text e html)) = None
      \<longrightarrow> first_match company_indicators (py_lower (soup_get_text e html)) = Some m
      \<longrightarrow> extract_company_name e html = Some (JStr (py_title (py_strip m))))"
  using scripts_company_name_truthy[of e "soup_scripts e html" v]
  by (simp add: extract_company_name_def Let_def)

theorem extract_company_name_priority_witness:
  "first_match email_patterns (py_lower (soup_get_text demo_env (script_page payload_acme body_acme)))
     = Some ''acme''
   \<and> extract_company_name demo_env (script_page payload_acme body_acme) = Some (JStr ''Acme Corp'')
   \<and> first_match email_patterns (py_lower (soup_get_text demo_env (script_page payload_globex body_globex)))
     = Some ''washington''
   \<and> extract_company_name demo_env (script_page payload_globex body_globex) = Some (JStr ''Globex'')
   \<and> extract_company_name demo_env body_acme = Some (JStr ''Acme'')"
proof -
  have a: "scripts_company_name demo_env (soup_scripts demo_env (script_page payload_acme body_acme))
             = Inr (Some (JStr ''Acme Corp''))"
    by (simp add: demo_scripts demo_company_names)
  have g: "scripts_company_name demo_env (soup_scripts demo_env (script_page payload_globex body_globex))
             = Inr (Some (JStr ''Globex''))"
    by (simp add: demo_scripts demo_company_names)
  have n: "soup_scripts demo_env body_acme = []" "soup_get_text demo_env body_acme = body_acme"
    by (simp_all add: demo_env_def demo_page_defs)
  have t: "py_title ''acme'' = ''Acme''" by code_simp
  from extract_company_name_priority[of demo_env "script_page payload_acme body_acme",
      THEN conjunct1, rule_format, OF a, THEN conjunct1]
  have 1: "extract_company_name demo_env (script_page payload_acme body_acme) = Some (JStr ''Acme Corp'')" .
  from extract_company_name_priority[of demo_env "script_page payload_globex body_globex",
      THEN conjunct1, rule_format, OF g, THEN conjunct1]
  have 2: "extract_company_name demo_env (script_page payload_globex body_globex) = Some (JStr ''Globex'')" .
  from extract_company_name_priority[of demo_env body_acme _ "''acme''",
      THEN conjunct2, THEN conjunct1, rule_format]
  have 3: "extract_company_name demo_env body_acme = Some (JStr ''Acme'')"
    by (simp add: n demo_email_match t)
  from 1 2 3 show ?thesis
    by (simp add: demo_texts demo_email_match demo_university_match)
qed

text \<open>
  Claim C7. When \<open>search_promos\<close> returns, started on a store that is a dict, every code
  that had a record at the start has the same record at the end. The requests made are
  those for the codes of the scan that had no record at the start, in order: a code with
  a record is passed over before any request.
\<close>

theorem search_promos_keeps_existing:
  assumes "search_promos e max_codes start_from st = Inr st'" and "results st = JDict d"
    and "map_of d code = Some v"
  shows "\<exists>d'. results st' = JDict d' \<and> map_of d' code = Some v
           \<and> requested st' = requested st
                @ map (urljoin e base_url)
                    (filter (\<lambda>c. map_of d c = None) (candidate_codes max_codes start_from))"
proof -
  from search_promos_scan[OF assms(1)] obtain n' st1 where
    sc: "scan e (candidate_codes max_codes start_from) 0 st = Inr (n', st1)"
    and eq: "results st' = results st1" "requested st' = requested st1" by blast
  from scan_store[OF sc assms(2)] obtain d' where
    "results st1 = JDict d'" "\<forall>c v. map_of d c = Some v \<longrightarrow> map_of d' c = Some v" by blast
  moreover note scan_requested[OF sc assms(2) distinct_candidate_codes]
  ultimately show ?thesis using eq assms(3) by auto
qed

theorem search_promos_keeps_existing_witness:
  "\<exists>st'. search_promos demo_env (Some 3) None demo_finder = Inr st'
     \<and> (\<exists>d'. results st' = JDict d' \<and> map_of d' ''AS2300'' = Some demo_record
            \<and> requested st' = [''https://www.alaskaair.com/promo/AS2301'',
                                ''https://www.alaskaair.com/promo/AS2302''])"
proof -
  have d: "results demo_finder = JDict [(''AS2300'', demo_record)]"
    by (simp add: demo_finder_def)
  have m: "map_of [(''AS2300'', demo_record)] ''AS2300'' = Some demo_record" by simp
  from search_promos_returns[OF demo_get_only_request_exceptions d]
  obtain st' where st': "search_promos demo_env (Some 3) None demo_finder = Inr st'" by blast
  from search_promos_keeps_existing[OF st' d m] obtain d' where
    "results st' = JDict d'" "map_of d' ''AS2300'' = Some demo_record"
    "requested st' = requested demo_finder
       @ map (urljoin demo_env base_url)
           (filter (\<lambda>c. map_of [(''AS2300'', demo_record)] c = None)
              (candidate_codes (Some 3) None))"
    by blast
  then have "results st' = JDict d' \<and> map_of d' ''AS2300'' = Some demo_record
            \<and> requested st' = [''https://www.alaskaair.com/promo/AS2301'',
                                ''https://www.alaskaair.com/promo/AS2302'']"
    unfolding demo_urljoin by (simp add: candidate_codes_first_three demo_finder_def base_url_def)
  with st' show ?thesis by blast
qed



text \<open>
  Claim C9. When the request for a code raises a network error or its answer has a status
  other than 200, \<open>check_promo_url\<close> returns \<open>None\<close> and raises nothing, the store is
  unchanged, and the loop of \<open>search_promos\<close> goes on with the next code.
\<close>

theorem check_promo_url_failure:
  assumes "session_get e (urljoin e base_url code) = Inl RequestException
           \<or> (\<exists>resp. session_get e (urljoin e base_url code) = Inr resp \<and> status_code resp \<noteq> 200)"
  shows "fst (check_promo_url e st code) = Inr None
         \<and> results (snd (check_promo_url e st code)) = results st
         \<and> (py_in code (results st) = Inr False
              \<longrightarrow> scan e (code # rest) n st = scan e rest n (snd (check_promo_url e st code)))"
proof -
  have r: "fst (check_promo_url e st code) = Inr None"
    using assms by (auto simp: check_promo_url_def Let_def caught_by_def page_result_def)
  have s: "results (snd (check_promo_url e st code)) = results st"
    by (simp add: check_promo_url_state)
  have "scan e (code # rest) n st = scan e rest n (snd (check_promo_url e st code))"
    if "py_in code (results st) = Inr False"
    using that r by (cases "check_promo_url e st code") simp
  with r s show ?thesis by blast
qed

theorem check_promo_url_failure_witness:
  "fst (check_promo_url demo_env demo_finder ''AS2399'') = Inr None
   \<and> results (snd (check_promo_url demo_env demo_finder ''AS2399'')) = results demo_finder
   \<and> scan demo_env [''AS2399'', ''AS2301''] 0 demo_finder
       = scan demo_env [''AS2301''] 0 (snd (check_promo_url demo_env demo_finder ''AS2399''))
   \<and> fst (check_promo_url demo_env demo_finder ''AS2300'') = Inr None"
proof -
  have h: "session_get demo_env (urljoin demo_env base_url ''AS2399'') = Inl RequestException
           \<or> (\<exists>resp. session_get demo_env (urljoin demo_env base_url ''AS2399'') = Inr resp
                 \<and> status_code resp \<noteq> 200)"
    by (simp add: demo_get_join)
  have h': "session_get demo_env (urljoin demo_env base_url ''AS2300'') = Inl RequestException
           \<or> (\<exists>resp. session_get demo_env (urljoin demo_env base_url ''AS2300'') = Inr resp
                 \<and> status_code resp \<noteq> 200)"
    by (simp add: demo_get_join)
  have p: "py_in ''AS2399'' (results demo_finder) = Inr False"
    by (simp add: demo_finder_def)
  from check_promo_url_failure[OF h, of demo_finder "[''AS2301'']" 0] p
    check_promo_url_failure[OF h', of demo_finder "[]" 0]
  show ?thesis by simp
qed

text \<open>
  Claim C10. \<open>max_codes = 0\<close> behaves as no bound: the scan is that of \<open>max_codes = None\<close>
  and, with no start code, runs over all 600 generated codes. Likewise the empty string as
  \<open>start_from\<close> behaves as no start code.
\<close>

theorem search_promos_zero_bound:
  "search_promos e (Some 0) start_from st = search_promos e None start_from st
   \<and> search_promos e max_codes (Some []) st = search_promos e max_codes None st
   \<and> candidate_codes (Some 0) None = generate_promo_codes
   \<and> length (candidate_codes (Some 0) None) = 600"
  by (simp add: search_promos_def candidate_codes_def length_generate_promo_codes)

theorem search_promos_zero_bound_witness:
  "search_promos demo_env (Some 0) None demo_finder = search_promos demo_env None None demo_finder
   \<and> search_promos demo_env (Some 3) (Some []) demo_finder
       = search_promos demo_env (Some 3) None demo_finder
   \<and> length (candidate_codes (Some 0) None) = 600"
  using search_promos_zero_bound[of demo_env None demo_finder "Some 3"] by blast

end
